theory Spec2Isabelle
  imports Main
begin

section \<open>Data model of gameLogic.h\<close>

text \<open>
  The enumerations of the header. The grid is a \<^verbatim>\<open>vector<vector<int>>\<close>, but the only
  values ever stored in it are the enumerators of \<^verbatim>\<open>CellType\<close>, so a cell is modelled
  by the enumeration itself. Coordinates, the score and the growth counter are C++
  \<^verbatim>\<open>int\<close>s of 32 bits. A coordinate of the snake is never more than one step away
  from a board whose dimensions are \<^verbatim>\<open>int\<close>s, and the growth counter is 0 or 1 between
  its two uses, so these are modelled by unbounded integers. The score is the one
  \<^verbatim>\<open>int\<close> that a game can drive out of range: its addition is reduced to 32 bits by
  \<open>to_int32\<close> below.
\<close>

datatype Direction = UP | DOWN | LEFT | RIGHT | NONE

datatype CellType = EMPTY | SNAKE | FOOD | WALL

text \<open>
  The two ways a call can fail to return normally: the \<^verbatim>\<open>std::length_error\<close> thrown by
  the \<^verbatim>\<open>vector\<close> constructor when a negative dimension is converted to \<^verbatim>\<open>size_t\<close>, and
  the undefined behaviour of \<^verbatim>\<open>deque::front\<close> on an empty deque.
\<close>

datatype error = LengthError | UndefinedBehaviour

text \<open>\<^verbatim>\<open>struct GameState\<close> (lines 25-35); the fields carry the prefix \<open>gs_\<close>.\<close>

record GameState =
  gs_board :: "CellType list list"
  gs_rows :: int
  gs_cols :: int
  gs_score :: int
  gs_gameOver :: bool
  gs_food :: "int \<times> int"
  gs_foodExists :: bool
  gs_snake :: "(int \<times> int) list"
  gs_snakeLength :: int

record Board =
  grid :: "CellType list list"
  rows :: int
  cols :: int

record Snake =
  body :: "(int \<times> int) list"
  growthPending :: int

record FoodManager =
  position :: "int \<times> int"
  exists :: bool

record DirectionController =
  current :: Direction
  "next" :: Direction
  atomicInput :: Direction

text \<open>
  \<^verbatim>\<open>class StatePublisher\<close>. The two \<^verbatim>\<open>GameState\<close> objects made by \<^verbatim>\<open>make_shared\<close> live
  in an explicit store, a map from addresses to objects; a \<^verbatim>\<open>shared_ptr\<close> is the
  address of its object, so that aliasing between the published pointer and the two
  buffers is visible.
  \<open>publishes\<close> is not a member of the class: it counts the completed calls of
  \<^verbatim>\<open>publish\<close>, so that statements about how many publishes a tick performs can be made.
\<close>

record StatePublisher =
  store :: "nat \<Rightarrow> GameState"
  currentState :: nat
  writeBuffer :: nat
  readBuffer :: nat
  publishes :: nat

text \<open>
  \<^verbatim>\<open>class SnakeGameLogic\<close>. The random engine is not part of the record: each operation
  that may draw from it takes the drawn number as an argument.
\<close>

record SnakeGameLogic =
  board :: Board
  snake :: Snake
  foodManager :: FoodManager
  directionController :: DirectionController
  statePublisher :: StatePublisher
  score :: int
  pointsPerFood :: int
  gameOver :: bool

section \<open>Board\<close>

text \<open>Lines 95-99. The inner and the outer vector are both built from an \<^verbatim>\<open>int\<close> size.\<close>

definition Board_initialize :: "int \<Rightarrow> int \<Rightarrow> error + Board" where
  "Board_initialize rs cs =
     (if rs < 0 \<or> cs < 0 then Inl LengthError
      else Inr \<lparr>grid = replicate (nat rs) (replicate (nat cs) EMPTY), rows = rs, cols = cs\<rparr>)"

definition isInBounds :: "Board \<Rightarrow> int \<Rightarrow> int \<Rightarrow> bool" where
  "isInBounds b r c \<longleftrightarrow> r \<ge> 0 \<and> r < rows b \<and> c \<ge> 0 \<and> c < cols b"

definition getCellType :: "Board \<Rightarrow> int \<Rightarrow> int \<Rightarrow> CellType" where
  "getCellType b r c = (if \<not> isInBounds b r c then WALL else grid b ! nat r ! nat c)"

definition setCellType :: "Board \<Rightarrow> int \<Rightarrow> int \<Rightarrow> CellType \<Rightarrow> Board" where
  "setCellType b r c cellType =
     (if isInBounds b r c
      then b\<lparr>grid := (grid b)[nat r := (grid b ! nat r)[nat c := cellType]]\<rparr>
      else b)"

definition getEmptyCells :: "Board \<Rightarrow> (int \<times> int) list" where
  "getEmptyCells b =
     [(r, c). r \<leftarrow> [0..rows b - 1], c \<leftarrow> [0..cols b - 1], grid b ! nat r ! nat c = EMPTY]"

section \<open>Snake\<close>

text \<open>The body of the loop of \<^verbatim>\<open>Snake::initialize\<close> (lines 189-198): the \<open>i\<close>-th segment.\<close>

definition segmentAt :: "int \<times> int \<Rightarrow> Direction \<Rightarrow> int \<Rightarrow> int \<times> int" where
  "segmentAt startPos direction i =
     (let r = fst startPos; c = snd startPos in
      case direction of
        RIGHT \<Rightarrow> (r, c - i)
      | LEFT \<Rightarrow> (r, c + i)
      | UP \<Rightarrow> (r + i, c)
      | DOWN \<Rightarrow> (r - i, c)
      | NONE \<Rightarrow> (r, c))"

text \<open>
  Lines 181-203. The loop runs \<open>i\<close> from \<open>0\<close> to \<open>length - 1\<close>, appending the segment
  and tagging its cell; the snake passed in is cleared first.
\<close>

definition Snake_initialize :: "int \<times> int \<Rightarrow> int \<Rightarrow> Direction \<Rightarrow> Board \<Rightarrow> Snake \<times> Board" where
  "Snake_initialize startPos len direction b =
     (let segs = map (segmentAt startPos direction) [0..len - 1] in
      (\<lparr>body = segs, growthPending = 0\<rparr>,
       foldl (\<lambda>b' p. setCellType b' (fst p) (snd p) SNAKE) b segs))"

text \<open>Lines 210-221. After the \<^verbatim>\<open>push_front\<close> the deque is not empty, so \<^verbatim>\<open>back\<close> is defined.\<close>

definition move :: "int \<times> int \<Rightarrow> Snake \<Rightarrow> Board \<Rightarrow> Snake \<times> Board" where
  "move newHead sn b =
     (let body1 = newHead # body sn;
          b1 = setCellType b (fst newHead) (snd newHead) SNAKE in
      if growthPending sn > 0
      then (sn\<lparr>body := body1, growthPending := growthPending sn - 1\<rparr>, b1)
      else (let tail = last body1 in
            (sn\<lparr>body := butlast body1\<rparr>, setCellType b1 (fst tail) (snd tail) EMPTY)))"

definition grow :: "int \<Rightarrow> Snake \<Rightarrow> Snake" where
  "grow amount sn = sn\<lparr>growthPending := growthPending sn + amount\<rparr>"

text \<open>Lines 236-241: the loop starts at index 1, so the head is skipped.\<close>

definition checkSelfCollision :: "Snake \<Rightarrow> int \<times> int \<Rightarrow> bool" where
  "checkSelfCollision sn pos \<longleftrightarrow> pos \<in> set (drop 1 (body sn))"

text \<open>\<^verbatim>\<open>body.front()\<close>: undefined on an empty deque, hence an option.\<close>

definition getHead :: "Snake \<Rightarrow> (int \<times> int) option" where
  "getHead sn = (case body sn of [] \<Rightarrow> None | h # _ \<Rightarrow> Some h)"

definition getLength :: "Snake \<Rightarrow> nat" where
  "getLength sn = length (body sn)"

definition hasPendingGrowth :: "Snake \<Rightarrow> bool" where
  "hasPendingGrowth sn \<longleftrightarrow> growthPending sn > 0"

section \<open>FoodManager\<close>

text \<open>
  Lines 276-289. \<open>k\<close> is the number drawn from the random engine; the distribution
  returns an index between \<open>0\<close> and \<open>size - 1\<close>, modelled by \<open>k mod size\<close>, so that
  every index can be drawn.
\<close>

definition placeRandom :: "nat \<Rightarrow> FoodManager \<Rightarrow> Board \<Rightarrow> FoodManager \<times> Board" where
  "placeRandom k fm b =
     (let emptyCells = getEmptyCells b in
      if emptyCells = [] then (fm\<lparr>exists := False\<rparr>, b)
      else (let idx = k mod length emptyCells;
                pos = emptyCells ! idx in
            (fm\<lparr>position := pos, exists := True\<rparr>, setCellType b (fst pos) (snd pos) FOOD)))"

definition remove :: "FoodManager \<Rightarrow> Board \<Rightarrow> FoodManager \<times> Board" where
  "remove fm b =
     (if exists fm
      then (fm\<lparr>exists := False\<rparr>, setCellType b (fst (position fm)) (snd (position fm)) EMPTY)
      else (fm, b))"

definition isPresent :: "FoodManager \<Rightarrow> bool" where
  "isPresent fm \<longleftrightarrow> exists fm"

section \<open>CollisionDetector\<close>

definition isOutOfBounds :: "int \<times> int \<Rightarrow> Board \<Rightarrow> bool" where
  "isOutOfBounds pos b \<longleftrightarrow> \<not> isInBounds b (fst pos) (snd pos)"

definition isWall :: "int \<times> int \<Rightarrow> Board \<Rightarrow> bool" where
  "isWall pos b \<longleftrightarrow> getCellType b (fst pos) (snd pos) = WALL"

definition isFood :: "int \<times> int \<Rightarrow> FoodManager \<Rightarrow> bool" where
  "isFood pos fm \<longleftrightarrow> isPresent fm \<and> pos = position fm"

section \<open>DirectionController\<close>

definition DirectionController_new :: DirectionController where
  "DirectionController_new = \<lparr>current = NONE, next = NONE, atomicInput = NONE\<rparr>"

definition isValidChange :: "DirectionController \<Rightarrow> Direction \<Rightarrow> bool" where
  "isValidChange dc newDir =
     (if current dc = UP \<and> newDir = DOWN then False
      else if current dc = DOWN \<and> newDir = UP then False
      else if current dc = LEFT \<and> newDir = RIGHT then False
      else if current dc = RIGHT \<and> newDir = LEFT then False
      else True)"

definition setInput :: "Direction \<Rightarrow> DirectionController \<Rightarrow> DirectionController" where
  "setInput dir dc = dc\<lparr>atomicInput := dir\<rparr>"

text \<open>Lines 394-403: the exchange reads the slot and leaves \<^verbatim>\<open>NONE\<close> in it.\<close>

definition processInput :: "DirectionController \<Rightarrow> DirectionController" where
  "processInput dc =
     (let inputDir = atomicInput dc;
          dc1 = dc\<lparr>atomicInput := NONE\<rparr>;
          dc2 = (if inputDir \<noteq> NONE \<and> isValidChange dc1 inputDir
                 then dc1\<lparr>next := inputDir\<rparr> else dc1)
      in dc2\<lparr>current := next dc2\<rparr>)"

definition getNextPosition :: "DirectionController \<Rightarrow> int \<times> int \<Rightarrow> int \<times> int" where
  "getNextPosition dc currentPos =
     (let newRow = fst currentPos; newCol = snd currentPos in
      case current dc of
        UP \<Rightarrow> (newRow - 1, newCol)
      | DOWN \<Rightarrow> (newRow + 1, newCol)
      | LEFT \<Rightarrow> (newRow, newCol - 1)
      | RIGHT \<Rightarrow> (newRow, newCol + 1)
      | NONE \<Rightarrow> (newRow, newCol))"

definition DirectionController_initialize ::
  "Direction \<Rightarrow> DirectionController \<Rightarrow> DirectionController" where
  "DirectionController_initialize initialDir dc = dc\<lparr>current := initialDir, next := initialDir\<rparr>"

section \<open>StatePublisher\<close>

text \<open>\<^verbatim>\<open>make_shared<GameState>()\<close> value-initialises the object.\<close>

definition GameState_new :: GameState where
  "GameState_new =
     \<lparr>gs_board = [], gs_rows = 0, gs_cols = 0, gs_score = 0, gs_gameOver = False,
      gs_food = (0, 0), gs_foodExists = False, gs_snake = [], gs_snakeLength = 0\<rparr>"

text \<open>
  Lines 449-453: two objects are allocated, at the addresses 0 and 1, and the first
  one is published.
\<close>

definition StatePublisher_new :: StatePublisher where
  "StatePublisher_new =
     \<lparr>store = (\<lambda>a. GameState_new), currentState = 0,
      writeBuffer = 0, readBuffer = 1, publishes = 0\<rparr>"

text \<open>
  Lines 463-478: every field of the object \<^verbatim>\<open>writeBuffer\<close> points to is assigned, the
  pointer is stored in \<^verbatim>\<open>currentState\<close>, and the two buffer pointers are swapped.
\<close>

definition publish ::
  "Board \<Rightarrow> Snake \<Rightarrow> FoodManager \<Rightarrow> int \<Rightarrow> bool \<Rightarrow> StatePublisher \<Rightarrow> StatePublisher" where
  "publish b sn fm sc over p =
     (let w = writeBuffer p;
          written = \<lparr>gs_board = grid b, gs_rows = rows b, gs_cols = cols b, gs_score = sc,
                     gs_gameOver = over, gs_food = position fm, gs_foodExists = isPresent fm,
                     gs_snake = body sn, gs_snakeLength = int (getLength sn)\<rparr>
      in p\<lparr>store := (store p)(w := written), currentState := w,
           writeBuffer := readBuffer p, readBuffer := w, publishes := Suc (publishes p)\<rparr>)"

text \<open>\<^verbatim>\<open>getState\<close> returns the pointer; \<open>deref\<close> reads the object it points to.\<close>

definition getState :: "StatePublisher \<Rightarrow> nat" where
  "getState p = currentState p"

definition deref :: "StatePublisher \<Rightarrow> nat \<Rightarrow> GameState" where
  "deref p a = store p a"

section \<open>SnakeGameLogic\<close>

text \<open>
  Lines 514-517. The default-constructed board has an empty grid; its \<^verbatim>\<open>rows\<close> and
  \<^verbatim>\<open>cols\<close> are indeterminate in C++ and are overwritten by \<^verbatim>\<open>initializeBoard\<close> before
  anything reads them; they are given as 0 here.
\<close>

definition SnakeGameLogic_new :: SnakeGameLogic where
  "SnakeGameLogic_new =
     \<lparr>board = \<lparr>grid = [], rows = 0, cols = 0\<rparr>,
      snake = \<lparr>body = [], growthPending = 0\<rparr>,
      foodManager = \<lparr>position = (0, 0), exists = False\<rparr>,
      directionController = DirectionController_new,
      statePublisher = StatePublisher_new,
      score = 0, pointsPerFood = 10, gameOver = False\<rparr>"

text \<open>The statement \<^verbatim>\<open>statePublisher.publish(board, snake, foodManager, score, gameOver)\<close>.\<close>

definition publishState :: "SnakeGameLogic \<Rightarrow> SnakeGameLogic" where
  "publishState g =
     g\<lparr>statePublisher :=
         publish (board g) (snake g) (foodManager g) (score g) (gameOver g) (statePublisher g)\<rparr>"

text \<open>Lines 527-541. \<open>k\<close> is the number drawn for the placement of the first food.\<close>

definition initializeBoard ::
  "int \<Rightarrow> int \<Rightarrow> int \<Rightarrow> int \<Rightarrow> Direction \<Rightarrow> nat \<Rightarrow> SnakeGameLogic \<Rightarrow> error + SnakeGameLogic" where
  "initializeBoard rs cs startingLength ppf initialDirection k g =
     (case Board_initialize rs cs of
        Inl e \<Rightarrow> Inl e
      | Inr b0 \<Rightarrow>
          (let dc = DirectionController_initialize initialDirection (directionController g);
               startPos = (rs div 2, cs div 2);
               (sn, b1) = Snake_initialize startPos startingLength initialDirection b0;
               (fm, b2) = placeRandom k (foodManager g) b1
           in Inr (publishState
                (g\<lparr>pointsPerFood := ppf, score := 0, gameOver := False, board := b2,
                   directionController := dc, snake := sn, foodManager := fm\<rparr>))))"

definition setDirection :: "Direction \<Rightarrow> SnakeGameLogic \<Rightarrow> SnakeGameLogic" where
  "setDirection newDir g = g\<lparr>directionController := setInput newDir (directionController g)\<rparr>"

text \<open>The three terminal exits of \<^verbatim>\<open>update\<close> (lines 568-570, 574-576, 580-582) and the
  exit of the win condition (lines 602-604) are the same three statements.\<close>

definition endGame :: "SnakeGameLogic \<Rightarrow> error + bool \<times> SnakeGameLogic" where
  "endGame g = Inr (False, publishState (g\<lparr>gameOver := True\<rparr>))"

text \<open>
  The value a 32-bit two's-complement \<^verbatim>\<open>int\<close> holds after an addition whose exact result
  is \<open>x\<close>: \<open>x\<close> reduced modulo \<open>2^32\<close> into the range from \<open>-2^31\<close> to \<open>2^31 - 1\<close>. (Signed
  overflow is undefined in the C++ standard; the wrap-around is what the compiled
  addition computes.)
\<close>

definition to_int32 :: "int \<Rightarrow> int" where
  "to_int32 x = (x + 2147483648) mod 4294967296 - 2147483648"

text \<open>Lines 586-590: the food collision; \<^verbatim>\<open>score += pointsPerFood\<close> is an \<^verbatim>\<open>int\<close> addition.\<close>

definition eatFood :: "int \<times> int \<Rightarrow> SnakeGameLogic \<Rightarrow> SnakeGameLogic" where
  "eatFood newHead g =
     (if isFood newHead (foodManager g)
      then (let (fm, b) = remove (foodManager g) (board g) in
            g\<lparr>snake := grow 1 (snake g), score := to_int32 (score g + pointsPerFood g),
              foodManager := fm, board := b\<rparr>)
      else g)"

text \<open>Line 593.\<close>

definition moveSnake :: "int \<times> int \<Rightarrow> SnakeGameLogic \<Rightarrow> SnakeGameLogic" where
  "moveSnake newHead g =
     (let (sn, b) = move newHead (snake g) (board g) in g\<lparr>snake := sn, board := b\<rparr>)"

text \<open>Lines 596-598.\<close>

definition placeFood :: "nat \<Rightarrow> SnakeGameLogic \<Rightarrow> SnakeGameLogic" where
  "placeFood k g =
     (if \<not> isPresent (foodManager g)
      then (let (fm, b) = placeRandom k (foodManager g) (board g) in
            g\<lparr>foodManager := fm, board := b\<rparr>)
      else g)"

text \<open>
  Lines 555-610. The result is the returned flag and the object after the call;
  \<open>k\<close> is the number drawn if food is placed during the tick.
\<close>

definition update :: "nat \<Rightarrow> SnakeGameLogic \<Rightarrow> error + bool \<times> SnakeGameLogic" where
  "update k g =
     (if gameOver g then Inr (False, g)
      else
        (let g1 = g\<lparr>directionController := processInput (directionController g)\<rparr> in
         case getHead (snake g1) of
           None \<Rightarrow> Inl UndefinedBehaviour
         | Some h \<Rightarrow>
             (let newHead = getNextPosition (directionController g1) h in
              if isOutOfBounds newHead (board g1) then endGame g1
              else if isWall newHead (board g1) then endGame g1
              else if checkSelfCollision (snake g1) newHead then endGame g1
              else
                (let g2 = placeFood k (moveSnake newHead (eatFood newHead g1)) in
                 if \<not> isPresent (foodManager g2) \<and> \<not> hasPendingGrowth (snake g2)
                 then endGame g2
                 else Inr (True, publishState g2)))))"

text \<open>A sequence of calls made on the object after \<^verbatim>\<open>initializeBoard\<close>.\<close>

datatype call = SetDirection Direction | Update nat

fun run :: "call list \<Rightarrow> SnakeGameLogic \<Rightarrow> error + SnakeGameLogic" where
  "run [] g = Inr g"
| "run (SetDirection d # cs) g = run cs (setDirection d g)"
| "run (Update k # cs) g =
     (case update k g of Inl e \<Rightarrow> Inl e | Inr (_, g') \<Rightarrow> run cs g')"

text \<open>A freshly constructed object, initialised and then driven through the calls.\<close>

definition play ::
  "int \<Rightarrow> int \<Rightarrow> int \<Rightarrow> int \<Rightarrow> Direction \<Rightarrow> nat \<Rightarrow> call list \<Rightarrow> error + SnakeGameLogic" where
  "play rs cs startingLength ppf initialDirection k calls =
     (case initializeBoard rs cs startingLength ppf initialDirection k SnakeGameLogic_new of
        Inl e \<Rightarrow> Inl e
      | Inr g \<Rightarrow> run calls g)"

text \<open>
  The position computed at line 564 of \<^verbatim>\<open>update\<close>: the pending input is consumed and
  the heading applied to the head. It is undefined for an empty snake.
\<close>

definition candidate :: "SnakeGameLogic \<Rightarrow> (int \<times> int) option" where
  "candidate g =
     map_option (getNextPosition (processInput (directionController g))) (getHead (snake g))"

text \<open>The object after line 593 of \<^verbatim>\<open>update\<close>, when the tick moves the snake to \<open>c\<close>.\<close>

definition afterMove :: "int \<times> int \<Rightarrow> SnakeGameLogic \<Rightarrow> SnakeGameLogic" where
  "afterMove c g =
     moveSnake c (eatFood c (g\<lparr>directionController := processInput (directionController g)\<rparr>))"

text \<open>The snapshot a reader obtains from \<^verbatim>\<open>getGameState\<close> and reads.\<close>

definition getGameState :: "SnakeGameLogic \<Rightarrow> GameState" where
  "getGameState g = deref (statePublisher g) (getState (statePublisher g))"

text \<open>The object a sequence of calls ends in, when none of them failed.\<close>

definition the_game :: "error + SnakeGameLogic \<Rightarrow> SnakeGameLogic" where
  "the_game res = (case res of Inr g \<Rightarrow> g | Inl e \<Rightarrow> SnakeGameLogic_new)"

section \<open>Notions used to state the properties\<close>

text \<open>
  The calls that reach a \<^verbatim>\<open>DirectionController\<close>: \<^verbatim>\<open>initialize\<close> (from
  \<^verbatim>\<open>initializeBoard\<close>), \<^verbatim>\<open>setInput\<close> (from \<^verbatim>\<open>setDirection\<close>) and \<^verbatim>\<open>processInput\<close> (from
  \<^verbatim>\<open>update\<close>); \<open>controllerAfter\<close> is the controller a sequence of them leaves, starting
  from the constructed one.
\<close>

datatype controller_call = Initialize Direction | SetInput Direction | ProcessInput

fun controllerCall :: "controller_call \<Rightarrow> DirectionController \<Rightarrow> DirectionController" where
  "controllerCall (Initialize d) dc = DirectionController_initialize d dc"
| "controllerCall (SetInput d) dc = setInput d dc"
| "controllerCall ProcessInput dc = processInput dc"

definition controllerAfter :: "controller_call list \<Rightarrow> DirectionController" where
  "controllerAfter calls = foldl (\<lambda>dc c. controllerCall c dc) DirectionController_new calls"

text \<open>
  The 180-degree reversals as the specification lists them: Up against Down and Left
  against Right. This definition is written from the specification, to be compared
  with \<open>isValidChange\<close>.
\<close>

definition isReversal :: "Direction \<Rightarrow> Direction \<Rightarrow> bool" where
  "isReversal heading requested \<longleftrightarrow>
     (heading = UP \<and> requested = DOWN) \<or> (heading = DOWN \<and> requested = UP) \<or>
     (heading = LEFT \<and> requested = RIGHT) \<or> (heading = RIGHT \<and> requested = LEFT)"

text \<open>The number of cells of the grid that carry a given tag.\<close>

definition countCells :: "CellType \<Rightarrow> Board \<Rightarrow> nat" where
  "countCells t b = length (filter (\<lambda>x. x = t) (concat (grid b)))"

text \<open>The grid has as many rows and columns as the board records.\<close>

definition board_ok :: "Board \<Rightarrow> bool" where
  "board_ok b \<longleftrightarrow>
     length (grid b) = nat (rows b) \<and> (\<forall>row \<in> set (grid b). length row = nat (cols b))"

text \<open>
  The tags of a board agree with a list of segments and a food manager: a cell is
  tagged \<^verbatim>\<open>SNAKE\<close> exactly when it is on the board and holds a segment, and the cell
  of an existing food is tagged \<^verbatim>\<open>FOOD\<close>.
\<close>

definition tagged :: "Board \<Rightarrow> (int \<times> int) list \<Rightarrow> FoodManager \<Rightarrow> bool" where
  "tagged b segs fm \<longleftrightarrow>
     board_ok b \<and>
     (\<forall>r c. getCellType b r c = SNAKE \<longleftrightarrow> isInBounds b r c \<and> (r, c) \<in> set segs) \<and>
     (exists fm \<longrightarrow> getCellType b (fst (position fm)) (snd (position fm)) = FOOD)"

text \<open>
  The state between two calls of a game that was initialised with a heading: the
  segments are pairwise distinct, no growth is pending, the controller has a heading,
  and the tags of the board agree with the snake and the food.
\<close>

definition consistent :: "SnakeGameLogic \<Rightarrow> bool" where
  "consistent g \<longleftrightarrow>
     distinct (body (snake g)) \<and> growthPending (snake g) = 0 \<and>
     next (directionController g) = current (directionController g) \<and>
     current (directionController g) \<noteq> NONE \<and>
     tagged (board g) (body (snake g)) (foodManager g)"

text \<open>Every segment of the snake lies on the board.\<close>

definition onBoard :: "SnakeGameLogic \<Rightarrow> bool" where
  "onBoard g \<longleftrightarrow> (\<forall>p \<in> set (body (snake g)). isInBounds (board g) (fst p) (snd p))"

text \<open>The published snapshot shows the board and the snake as they are now.\<close>

definition synced :: "SnakeGameLogic \<Rightarrow> bool" where
  "synced g \<longleftrightarrow>
     gs_board (getGameState g) = grid (board g) \<and>
     gs_snake (getGameState g) = body (snake g) \<and>
     gs_snakeLength (getGameState g) = int (length (body (snake g)))"

section \<open>Publishing\<close>

lemma deref_publish [simp]:
  "deref (publish b sn fm sc over p) (getState (publish b sn fm sc over p)) =
     \<lparr>gs_board = grid b, gs_rows = rows b, gs_cols = cols b, gs_score = sc,
      gs_gameOver = over, gs_food = position fm, gs_foodExists = isPresent fm,
      gs_snake = body sn, gs_snakeLength = int (getLength sn)\<rparr>"
  by (simp add: publish_def deref_def getState_def Let_def)

lemma publishes_publish [simp]:
  "publishes (publish b sn fm sc over p) = Suc (publishes p)"
  by (simp add: publish_def Let_def)

lemma publishState_simps [simp]:
  "board (publishState g) = board g" "snake (publishState g) = snake g"
  "foodManager (publishState g) = foodManager g" "score (publishState g) = score g"
  "gameOver (publishState g) = gameOver g" "pointsPerFood (publishState g) = pointsPerFood g"
  "directionController (publishState g) = directionController g"
  "publishes (statePublisher (publishState g)) = Suc (publishes (statePublisher g))"
  by (simp_all add: publishState_def)

lemma getGameState_publishState:
  "getGameState (publishState g) =
     \<lparr>gs_board = grid (board g), gs_rows = rows (board g), gs_cols = cols (board g),
      gs_score = score g, gs_gameOver = gameOver g, gs_food = position (foodManager g),
      gs_foodExists = isPresent (foodManager g), gs_snake = body (snake g),
      gs_snakeLength = int (getLength (snake g))\<rparr>"
  by (simp add: getGameState_def publishState_def)

text \<open>Each terminal exit sets the flag, publishes once and returns false; the board,
  the snake, the food and the score are the ones it was entered with.\<close>

lemma endGame_effect:
  "\<exists>g'. endGame g = Inr (False, g') \<and> gameOver g' \<and> gs_gameOver (getGameState g') \<and>
     publishes (statePublisher g') = Suc (publishes (statePublisher g)) \<and>
     board g' = board g \<and> snake g' = snake g \<and> score g' = score g \<and>
     foodManager g' = foodManager g \<and> directionController g' = directionController g"
  by (simp add: endGame_def getGameState_publishState)

section \<open>Cells of the board\<close>

lemma setCellType_dims [simp]:
  "rows (setCellType b r c t) = rows b" "cols (setCellType b r c t) = cols b"
  by (simp_all add: setCellType_def)

lemma isInBounds_setCellType [simp]:
  "isInBounds (setCellType b r c t) r' c' = isInBounds b r' c'"
  by (simp add: isInBounds_def)

lemma isInBounds_grid_update [simp]:
  "isInBounds (b\<lparr>grid := g\<rparr>) r c = isInBounds b r c"
  by (simp add: isInBounds_def)

lemma board_ok_setCellType [simp]: "board_ok b \<Longrightarrow> board_ok (setCellType b r c t)"
  by (auto simp: board_ok_def setCellType_def isInBounds_def dest!: set_update_subset_insert[THEN subsetD])

lemma getCellType_setCellType:
  assumes "board_ok b"
  shows "getCellType (setCellType b r c t) r' c' =
         (if isInBounds b r c \<and> r' = r \<and> c' = c then t else getCellType b r' c')"
proof (cases "isInBounds b r c")
  case False
  then show ?thesis by (simp add: setCellType_def)
next
  case True
  show ?thesis
  proof (cases "isInBounds b r' c'")
    case False
    then show ?thesis using True by (auto simp: getCellType_def isInBounds_def)
  next
    case inb: True
    from True inb assms have l: "nat r < length (grid b)" "nat r' < length (grid b)"
      "nat c < length (grid b ! nat r)" "nat c' < length (grid b ! nat r')"
      by (auto simp: board_ok_def isInBounds_def)
    from True inb have eqs: "nat r' = nat r \<longleftrightarrow> r' = r" "nat c' = nat c \<longleftrightarrow> c' = c"
      by (auto simp: isInBounds_def)
    show ?thesis using True inb l eqs
      by (auto simp: getCellType_def setCellType_def nth_list_update)
  qed
qed

lemma getCellType_inBounds: "getCellType b r c = t \<Longrightarrow> t \<noteq> WALL \<Longrightarrow> isInBounds b r c"
  by (auto simp: getCellType_def split: if_splits)

lemma set_getEmptyCells:
  "set (getEmptyCells b) = {(r, c). getCellType b r c = EMPTY}"
  by (auto simp: getEmptyCells_def getCellType_def isInBounds_def)

section \<open>The tags through the steps of a tick\<close>

lemma tagged_segment:
  assumes "tagged b segs fm" and "p \<in> set segs" and "isInBounds b (fst p) (snd p)"
  shows "getCellType b (fst p) (snd p) = SNAKE"
  using assms by (cases p) (auto simp: tagged_def)

lemma tagged_food:
  assumes "tagged b segs fm" and "exists fm"
  shows "getCellType b (fst (position fm)) (snd (position fm)) = FOOD"
    and "isInBounds b (fst (position fm)) (snd (position fm))"
    and "position fm \<notin> set segs"
proof -
  show f: "getCellType b (fst (position fm)) (snd (position fm)) = FOOD"
    using assms by (simp add: tagged_def)
  then show i: "isInBounds b (fst (position fm)) (snd (position fm))"
    by (rule getCellType_inBounds) simp
  show "position fm \<notin> set segs"
    using tagged_segment [OF assms(1) _ i] f by auto
qed

lemma tagged_remove:
  assumes "tagged b segs fm"
  shows "tagged (snd (remove fm b)) segs (fst (remove fm b))"
proof (cases "exists fm")
  case False
  then show ?thesis using assms by (simp add: remove_def)
next
  case True
  note f = tagged_food [OF assms True]
  show ?thesis
    using assms True f
    by (auto simp: tagged_def remove_def getCellType_setCellType)
qed

lemma tagged_placeRandom:
  assumes "tagged b segs (fm\<lparr>exists := False\<rparr>)"
  shows "tagged (snd (placeRandom k fm b)) segs (fst (placeRandom k fm b))"
proof (cases "getEmptyCells b = []")
  case True
  then show ?thesis using assms by (simp add: placeRandom_def tagged_def)
next
  case False
  let ?pos = "getEmptyCells b ! (k mod length (getEmptyCells b))"
  have "?pos \<in> set (getEmptyCells b)" using False by simp
  then have e: "getCellType b (fst ?pos) (snd ?pos) = EMPTY"
    by (auto simp: set_getEmptyCells)
  then have inb: "isInBounds b (fst ?pos) (snd ?pos)"
    by (rule getCellType_inBounds) simp
  have "?pos \<notin> set segs"
    using tagged_segment [OF assms(1) _ inb] e by auto
  then show ?thesis
    using False assms e inb
    by (auto simp: placeRandom_def tagged_def Let_def getCellType_setCellType)
qed

lemma move_body:
  "body (fst (move c sn b)) =
     (if growthPending sn > 0 then c # body sn else butlast (c # body sn))"
  "growthPending (fst (move c sn b)) =
     (if growthPending sn > 0 then growthPending sn - 1 else growthPending sn)"
  "rows (snd (move c sn b)) = rows b" "cols (snd (move c sn b)) = cols b"
  by (simp_all add: move_def Let_def)

lemma tagged_move:
  assumes tg: "tagged b (body sn) fm" and d: "distinct (body sn)" and ne: "body sn \<noteq> []"
    and c: "c \<notin> set (body sn)" and inb: "isInBounds b (fst c) (snd c)"
    and food: "exists fm \<longrightarrow> position fm \<noteq> c"
  shows "tagged (snd (move c sn b)) (body (fst (move c sn b))) fm"
    and "distinct (body (fst (move c sn b)))"
proof -
  obtain cr cc where cp: "c = (cr, cc)" by (cases c)
  let ?b1 = "setCellType b cr cc SNAKE"
  have ok: "board_ok b" using tg by (simp add: tagged_def)
  have g1: "getCellType ?b1 r c' = (if (r, c') = c then SNAKE else getCellType b r c')" for r c'
    using inb cp by (simp add: getCellType_setCellType [OF ok])
  have fd: "exists fm \<Longrightarrow> getCellType b (fst (position fm)) (snd (position fm)) = FOOD"
    using tg by (simp add: tagged_def)
  have sn: "getCellType b r c' = SNAKE \<longleftrightarrow> isInBounds b r c' \<and> (r, c') \<in> set (body sn)" for r c'
    using tg by (simp add: tagged_def)
  show "distinct (body (fst (move c sn b)))"
    using d c ne by (auto simp: move_body distinct_butlast dest: in_set_butlastD)
  show "tagged (snd (move c sn b)) (body (fst (move c sn b))) fm"
  proof (cases "growthPending sn > 0")
    case True
    then have b': "snd (move c sn b) = ?b1" and bd: "body (fst (move c sn b)) = c # body sn"
      by (simp_all add: move_def cp)
    show ?thesis
      unfolding b' bd tagged_def
      using ok inb cp food fd by (auto simp: g1 sn)
  next
    case False
    obtain tr tc where tp: "last (body sn) = (tr, tc)" by (cases "last (body sn)")
    have tl: "(tr, tc) \<in> set (body sn)" using ne tp by (metis last_in_set)
    have tc: "(tr, tc) \<noteq> c" using tl c by auto
    have sp: "butlast (body sn) @ [(tr, tc)] = body sn"
      using ne tp append_butlast_last_id [of "body sn"] by simp
    have nb: "(tr, tc) \<notin> set (butlast (body sn))"
      using d distinct_append [of "butlast (body sn)" "[(tr, tc)]"] by (simp add: sp)
    have st: "set (body sn) = insert (tr, tc) (set (butlast (body sn)))"
      using arg_cong [OF sp, of set] by simp
    from False have b': "snd (move c sn b) = setCellType ?b1 tr tc EMPTY"
      and bd: "body (fst (move c sn b)) = c # butlast (body sn)"
      using ne tp by (simp_all add: move_def cp Let_def)
    have ok1: "board_ok ?b1" using ok by simp
    have g2: "getCellType (setCellType ?b1 tr tc EMPTY) r c' =
        (if isInBounds b tr tc \<and> (r, c') = (tr, tc) then EMPTY
         else if (r, c') = c then SNAKE else getCellType b r c')" for r c'
      by (simp add: getCellType_setCellType [OF ok1] g1)
    have ft: "exists fm \<Longrightarrow> isInBounds b tr tc \<Longrightarrow> position fm \<noteq> (tr, tc)"
      using fd sn [of tr tc] tl by auto
    show ?thesis
      unfolding b' bd tagged_def
      using ok1 inb cp food fd tc nb st ft
      by (auto simp: g2 sn)
  qed
qed

section \<open>The initial layout\<close>

lemma foldl_tag_segments:
  assumes "board_ok b"
  shows "board_ok (foldl (\<lambda>b' p. setCellType b' (fst p) (snd p) SNAKE) b segs) \<and>
         rows (foldl (\<lambda>b' p. setCellType b' (fst p) (snd p) SNAKE) b segs) = rows b \<and>
         cols (foldl (\<lambda>b' p. setCellType b' (fst p) (snd p) SNAKE) b segs) = cols b \<and>
         (\<forall>r c. getCellType (foldl (\<lambda>b' p. setCellType b' (fst p) (snd p) SNAKE) b segs) r c =
            (if isInBounds b r c \<and> (r, c) \<in> set segs then SNAKE else getCellType b r c))"
  using assms
proof (induction segs arbitrary: b)
  case Nil
  then show ?case by simp
next
  case (Cons p segs)
  let ?b1 = "setCellType b (fst p) (snd p) SNAKE"
  have ok1: "board_ok ?b1" using Cons.prems by simp
  have g1: "getCellType ?b1 r c =
      (if isInBounds b (fst p) (snd p) \<and> (r, c) = p then SNAKE else getCellType b r c)" for r c
    by (cases p) (simp add: getCellType_setCellType [OF Cons.prems])
  have ib: "isInBounds ?b1 r c = isInBounds b r c" for r c by simp
  show ?case
    using Cons.IH [OF ok1] by (auto simp: g1 ib)
qed

lemma board_ok_fresh:
  "board_ok \<lparr>grid = replicate (nat rs) (replicate (nat cs) EMPTY), rows = rs, cols = cs\<rparr>"
  by (simp add: board_ok_def)

lemma getCellType_fresh:
  "getCellType \<lparr>grid = replicate (nat rs) (replicate (nat cs) EMPTY), rows = rs, cols = cs\<rparr> r c
     \<noteq> SNAKE"
  by (simp add: getCellType_def isInBounds_def)

lemma distinct_segments:
  assumes "dir \<noteq> NONE"
  shows "distinct (map (segmentAt sp dir) [0..n])"
proof -
  have "inj (segmentAt sp dir)"
    using assms by (cases dir) (auto simp: inj_on_def segmentAt_def Let_def)
  then show ?thesis
    by (simp add: distinct_map inj_on_def)
qed

lemma tagged_Snake_initialize:
  "tagged (snd (Snake_initialize sp len dir
       \<lparr>grid = replicate (nat rs) (replicate (nat cs) EMPTY), rows = rs, cols = cs\<rparr>))
     (body (fst (Snake_initialize sp len dir
       \<lparr>grid = replicate (nat rs) (replicate (nat cs) EMPTY), rows = rs, cols = cs\<rparr>)))
     (fm\<lparr>exists := False\<rparr>)"
proof -
  let ?b0 = "\<lparr>grid = replicate (nat rs) (replicate (nat cs) EMPTY), rows = rs, cols = cs\<rparr>"
  let ?segs = "map (segmentAt sp dir) [0..len - 1]"
  let ?b1 = "foldl (\<lambda>b' p. setCellType b' (fst p) (snd p) SNAKE) ?b0 ?segs"
  note f = foldl_tag_segments [OF board_ok_fresh, of rs cs ?segs]
  have ib: "isInBounds ?b1 r c = isInBounds ?b0 r c" for r c
    using f by (simp add: isInBounds_def)
  have "getCellType ?b1 r c = SNAKE \<longleftrightarrow> isInBounds ?b1 r c \<and> (r, c) \<in> set ?segs" for r c
    using f getCellType_fresh [of rs cs r c] by (simp add: ib del: set_map)
  then show ?thesis
    using f by (simp add: tagged_def Snake_initialize_def Let_def del: set_map)
qed

lemma initializeBoard_result:
  "initializeBoard rs cs len ppf dir k g =
     (if rs < 0 \<or> cs < 0 then Inl LengthError
      else Inr (publishState
        (g\<lparr>pointsPerFood := ppf, score := 0, gameOver := False,
           board := snd (placeRandom k (foodManager g)
              (snd (Snake_initialize (rs div 2, cs div 2) len dir
                 \<lparr>grid = replicate (nat rs) (replicate (nat cs) EMPTY), rows = rs, cols = cs\<rparr>))),
           directionController := DirectionController_initialize dir (directionController g),
           snake := fst (Snake_initialize (rs div 2, cs div 2) len dir
                 \<lparr>grid = replicate (nat rs) (replicate (nat cs) EMPTY), rows = rs, cols = cs\<rparr>),
           foodManager := fst (placeRandom k (foodManager g)
              (snd (Snake_initialize (rs div 2, cs div 2) len dir
                 \<lparr>grid = replicate (nat rs) (replicate (nat cs) EMPTY), rows = rs, cols = cs\<rparr>)))\<rparr>)))"
  by (simp add: initializeBoard_def Board_initialize_def Let_def split: prod.splits)

lemma consistent_publishState [simp]: "consistent (publishState g) = consistent g"
  by (simp add: consistent_def)

lemma consistent_initializeBoard:
  assumes "initializeBoard rs cs len ppf dir k g = Inr g0" and "dir \<noteq> NONE"
  shows "consistent g0"
proof -
  let ?b0 = "\<lparr>grid = replicate (nat rs) (replicate (nat cs) EMPTY), rows = rs, cols = cs\<rparr>"
  let ?si = "Snake_initialize (rs div 2, cs div 2) len dir ?b0"
  have t: "tagged (snd (placeRandom k (foodManager g) (snd ?si))) (body (fst ?si))
             (fst (placeRandom k (foodManager g) (snd ?si)))"
    by (rule tagged_placeRandom [OF tagged_Snake_initialize])
  have d: "distinct (body (fst ?si))"
    using distinct_segments [OF assms(2)] by (simp add: Snake_initialize_def Let_def)
  have gp: "growthPending (fst ?si) = 0"
    by (simp add: Snake_initialize_def Let_def)
  show ?thesis
    using assms t d gp
    by (auto simp: initializeBoard_result consistent_def DirectionController_initialize_def
          split: if_splits)
qed

section \<open>The tick\<close>

lemma statePublisher_steps [simp]:
  "statePublisher (eatFood c g) = statePublisher g"
  "statePublisher (moveSnake c g) = statePublisher g"
  "statePublisher (placeFood k g) = statePublisher g"
  by (simp_all add: eatFood_def moveSnake_def placeFood_def split: prod.splits)

lemma update_moved:
  assumes "\<not> gameOver g" and "candidate g = Some c"
    and "\<not> isOutOfBounds c (board g)" and "\<not> isWall c (board g)"
    and "\<not> checkSelfCollision (snake g) c"
  shows "update k g =
           (let g2 = placeFood k (afterMove c g) in
            if \<not> isPresent (foodManager g2) \<and> \<not> hasPendingGrowth (snake g2)
            then endGame g2 else Inr (True, publishState g2))"
  using assms
  by (auto simp: update_def candidate_def afterMove_def Let_def split: option.splits)

lemma update_blocked:
  assumes "\<not> gameOver g" and "candidate g = Some c"
    and "isOutOfBounds c (board g) \<or> isWall c (board g) \<or> checkSelfCollision (snake g) c"
  shows "update k g = endGame (g\<lparr>directionController := processInput (directionController g)\<rparr>)"
  using assms
  by (auto simp: update_def candidate_def Let_def split: option.splits)

lemma update_no_head:
  assumes "\<not> gameOver g" and "candidate g = None"
  shows "update k g = Inl UndefinedBehaviour"
  using assms by (auto simp: update_def candidate_def Let_def split: option.splits)

lemma processInput_next: "next (processInput dc) = current (processInput dc)"
  by (simp add: processInput_def Let_def)

lemma heading_kept:
  "next dc \<noteq> NONE \<Longrightarrow> current (processInput dc) \<noteq> NONE"
  by (simp add: processInput_def Let_def)

lemma getNextPosition_moves: "current dc \<noteq> NONE \<Longrightarrow> getNextPosition dc h \<noteq> h"
  by (cases "current dc"; cases h) (simp_all add: getNextPosition_def Let_def)

lemma candidate_fresh:
  assumes "consistent g" and "candidate g = Some c" and "\<not> checkSelfCollision (snake g) c"
  shows "c \<notin> set (body (snake g))" and "body (snake g) \<noteq> []"
proof -
  obtain h t where bd: "body (snake g) = h # t" and c: "c = getNextPosition (processInput (directionController g)) h"
    using assms(2) by (cases "body (snake g)") (auto simp: candidate_def getHead_def)
  have "current (processInput (directionController g)) \<noteq> NONE"
    using assms(1) by (simp add: consistent_def heading_kept)
  then have "c \<noteq> h" using c getNextPosition_moves by simp
  moreover have "c \<notin> set t" using assms(3) bd by (simp add: checkSelfCollision_def)
  ultimately show "c \<notin> set (body (snake g))" using bd by simp
  show "body (snake g) \<noteq> []" using bd by simp
qed

lemma eatFood_fields:
  "body (snake (eatFood c g)) = body (snake g)"
  "growthPending (snake (eatFood c g)) =
     (if isFood c (foodManager g) then growthPending (snake g) + 1 else growthPending (snake g))"
  "score (eatFood c g) =
     (if isFood c (foodManager g) then to_int32 (score g + pointsPerFood g) else score g)"
  "directionController (eatFood c g) = directionController g"
  "board (eatFood c g) = (if isFood c (foodManager g) then snd (remove (foodManager g) (board g)) else board g)"
  "foodManager (eatFood c g) = (if isFood c (foodManager g) then fst (remove (foodManager g) (board g)) else foodManager g)"
  "pointsPerFood (eatFood c g) = pointsPerFood g"
  "gameOver (eatFood c g) = gameOver g"
  by (simp_all add: eatFood_def grow_def split: prod.splits)

lemma moveSnake_fields:
  "snake (moveSnake c g) = fst (move c (snake g) (board g))"
  "board (moveSnake c g) = snd (move c (snake g) (board g))"
  "score (moveSnake c g) = score g"
  "directionController (moveSnake c g) = directionController g"
  "foodManager (moveSnake c g) = foodManager g"
  "pointsPerFood (moveSnake c g) = pointsPerFood g"
  "gameOver (moveSnake c g) = gameOver g"
  by (simp_all add: moveSnake_def split: prod.splits)

lemma placeFood_fields:
  "snake (placeFood k g) = snake g"
  "score (placeFood k g) = score g"
  "directionController (placeFood k g) = directionController g"
  "board (placeFood k g) = (if exists (foodManager g) then board g else snd (placeRandom k (foodManager g) (board g)))"
  "foodManager (placeFood k g) = (if exists (foodManager g) then foodManager g else fst (placeRandom k (foodManager g) (board g)))"
  "pointsPerFood (placeFood k g) = pointsPerFood g"
  "gameOver (placeFood k g) = gameOver g"
  by (simp_all add: placeFood_def isPresent_def split: prod.splits)

lemma remove_fields:
  "exists (fst (remove fm b)) = False" "position (fst (remove fm b)) = position fm"
  "rows (snd (remove fm b)) = rows b" "cols (snd (remove fm b)) = cols b"
  by (simp_all add: remove_def)

lemma placeRandom_dims:
  "rows (snd (placeRandom k fm b)) = rows b" "cols (snd (placeRandom k fm b)) = cols b"
  by (simp_all add: placeRandom_def Let_def)

text \<open>The state after eating and moving, when the tick is not ended by a check.\<close>

lemma afterMove_effect:
  assumes con: "consistent g" and cand: "candidate g = Some c"
    and inb: "\<not> isOutOfBounds c (board g)" and coll: "\<not> checkSelfCollision (snake g) c"
  shows "tagged (board (afterMove c g)) (body (snake (afterMove c g))) (foodManager (afterMove c g))"
    and "distinct (body (snake (afterMove c g)))"
    and "growthPending (snake (afterMove c g)) = 0"
    and "body (snake (afterMove c g)) =
           (if isFood c (foodManager g) then c # body (snake g) else c # butlast (body (snake g)))"
    and "score (afterMove c g) =
           (if isFood c (foodManager g) then to_int32 (score g + pointsPerFood g) else score g)"
    and "directionController (afterMove c g) = processInput (directionController g)"
    and "rows (board (afterMove c g)) = rows (board g)"
    and "cols (board (afterMove c g)) = cols (board g)"
proof -
  let ?g1 = "g\<lparr>directionController := processInput (directionController g)\<rparr>"
  let ?g2 = "eatFood c ?g1"
  note fr = candidate_fresh [OF con cand coll]
  have tg: "tagged (board g) (body (snake g)) (foodManager g)"
    and d: "distinct (body (snake g))" and gp: "growthPending (snake g) = 0"
    using con by (simp_all add: consistent_def)
  have tg2: "tagged (board ?g2) (body (snake ?g2)) (foodManager ?g2)"
    using tg tagged_remove [OF tg] by (simp add: eatFood_fields)
  have d2: "distinct (body (snake ?g2))" and ne2: "body (snake ?g2) \<noteq> []"
    and c2: "c \<notin> set (body (snake ?g2))"
    using d fr by (simp_all add: eatFood_fields)
  have inb2: "isInBounds (board ?g2) (fst c) (snd c)"
    using inb by (simp add: eatFood_fields isOutOfBounds_def remove_fields isInBounds_def)
  have food2: "exists (foodManager ?g2) \<longrightarrow> position (foodManager ?g2) \<noteq> c"
    by (auto simp: eatFood_fields remove_fields isFood_def isPresent_def)
  note m = tagged_move [OF tg2 d2 ne2 c2 inb2 food2]
  show "tagged (board (afterMove c g)) (body (snake (afterMove c g))) (foodManager (afterMove c g))"
    using m(1) by (simp add: afterMove_def moveSnake_fields)
  show "distinct (body (snake (afterMove c g)))"
    using m(2) by (simp add: afterMove_def moveSnake_fields)
  show "growthPending (snake (afterMove c g)) = 0"
    using gp by (simp add: afterMove_def moveSnake_fields move_body eatFood_fields)
  show "body (snake (afterMove c g)) =
           (if isFood c (foodManager g) then c # body (snake g) else c # butlast (body (snake g)))"
    using gp fr(2) by (simp add: afterMove_def moveSnake_fields move_body eatFood_fields)
  show "score (afterMove c g) =
           (if isFood c (foodManager g) then to_int32 (score g + pointsPerFood g) else score g)"
    by (simp add: afterMove_def moveSnake_fields eatFood_fields)
  show "directionController (afterMove c g) = processInput (directionController g)"
    by (simp add: afterMove_def moveSnake_fields eatFood_fields)
  show "rows (board (afterMove c g)) = rows (board g)" "cols (board (afterMove c g)) = cols (board g)"
    by (simp_all add: afterMove_def moveSnake_fields move_body eatFood_fields remove_fields)
qed

lemma consistent_moved:
  assumes con: "consistent g" and cand: "candidate g = Some c"
    and inb: "\<not> isOutOfBounds c (board g)" and coll: "\<not> checkSelfCollision (snake g) c"
  shows "consistent (placeFood k (afterMove c g))"
proof -
  note a = afterMove_effect [OF assms]
  have dc: "next (processInput (directionController g)) = current (processInput (directionController g))"
    "current (processInput (directionController g)) \<noteq> NONE"
    using con by (simp_all add: processInput_next heading_kept consistent_def)
  have "tagged (board (placeFood k (afterMove c g))) (body (snake (afterMove c g)))
          (foodManager (placeFood k (afterMove c g)))"
  proof (cases "exists (foodManager (afterMove c g))")
    case True
    then show ?thesis using a(1) by (simp add: placeFood_fields)
  next
    case False
    have "tagged (board (afterMove c g)) (body (snake (afterMove c g)))
            (foodManager (afterMove c g)\<lparr>exists := False\<rparr>)"
      using a(1) by (simp add: tagged_def)
    from tagged_placeRandom [OF this, of k] show ?thesis
      using False by (simp add: placeFood_fields)
  qed
  then show ?thesis
    using a(2,3,6) dc by (simp add: consistent_def placeFood_fields)
qed

lemma consistent_endGame:
  assumes "consistent g" and "endGame g = Inr (r, g')"
  shows "consistent g'"
  using assms by (auto simp: endGame_def consistent_def)

lemma consistent_update:
  assumes con: "consistent g" and u: "update k g = Inr (r, g')"
  shows "consistent g'"
proof (cases "gameOver g")
  case True
  then show ?thesis using con u by (simp add: update_def)
next
  case False
  show ?thesis
  proof (cases "candidate g")
    case None
    then show ?thesis using update_no_head [OF False None, of k] u by simp
  next
    case (Some c)
    let ?g1 = "g\<lparr>directionController := processInput (directionController g)\<rparr>"
    have c1: "consistent ?g1"
      using con by (simp add: consistent_def processInput_next heading_kept)
    show ?thesis
    proof (cases "isOutOfBounds c (board g) \<or> isWall c (board g) \<or> checkSelfCollision (snake g) c")
      case True
      have "endGame ?g1 = Inr (r, g')"
        using update_blocked [OF False Some True, of k] u by simp
      then show ?thesis by (rule consistent_endGame [OF c1])
    next
      case nb: False
      let ?g2 = "placeFood k (afterMove c g)"
      have c2: "consistent ?g2"
        using consistent_moved [OF con Some] nb by simp
      have "update k g =
           (if \<not> isPresent (foodManager ?g2) \<and> \<not> hasPendingGrowth (snake ?g2)
            then endGame ?g2 else Inr (True, publishState ?g2))"
        using update_moved [OF False Some, of k] nb by (simp add: Let_def)
      then have "endGame ?g2 = Inr (r, g') \<or> g' = publishState ?g2"
        using u by (simp split: if_splits)
      then show ?thesis
        using c2 consistent_endGame [OF c2] by auto
    qed
  qed
qed

lemma consistent_setDirection [simp]: "consistent (setDirection d g) = consistent g"
  by (simp add: consistent_def setDirection_def setInput_def)

lemma the_game_Inr: "\<not> isl res \<Longrightarrow> res = Inr (the_game res)"
  by (cases res) (simp_all add: the_game_def)

section \<open>Segments on the board, snapshot in step\<close>

lemma onBoard_moved:
  assumes con: "consistent g" and cand: "candidate g = Some c"
    and inb: "\<not> isOutOfBounds c (board g)" and coll: "\<not> checkSelfCollision (snake g) c"
    and ob: "onBoard g"
  shows "onBoard (placeFood k (afterMove c g))"
proof -
  note a = afterMove_effect [OF con cand inb coll]
  have sub: "set (body (snake (afterMove c g))) \<subseteq> insert c (set (body (snake g)))"
    by (auto simp: a(4) dest: in_set_butlastD)
  have ib: "isInBounds (board (placeFood k (afterMove c g))) r c' = isInBounds (board g) r c'" for r c'
    using a(7,8) by (simp add: isInBounds_def placeFood_fields placeRandom_dims)
  show ?thesis
    unfolding onBoard_def
  proof
    fix p assume "p \<in> set (body (snake (placeFood k (afterMove c g))))"
    then have "p = c \<or> p \<in> set (body (snake g))"
      using sub by (auto simp: placeFood_fields)
    then show "isInBounds (board (placeFood k (afterMove c g))) (fst p) (snd p)"
      using ob inb by (auto simp: ib onBoard_def isOutOfBounds_def)
  qed
qed

lemma onBoard_fields [simp]:
  "onBoard (publishState g) = onBoard g"
  "onBoard (g\<lparr>gameOver := v\<rparr>) = onBoard g"
  "onBoard (g\<lparr>directionController := dc\<rparr>) = onBoard g"
  by (simp_all add: onBoard_def)

lemma synced_publishState [simp]: "synced (publishState g)"
  by (simp add: synced_def getGameState_publishState getLength_def)

lemma endGame_result: "endGame g = Inr (r, g') \<Longrightarrow> g' = publishState (g\<lparr>gameOver := True\<rparr>)"
  by (auto simp: endGame_def)

lemma onBoard_synced_update:
  assumes con: "consistent g" and u: "update k g = Inr (r, g')"
  shows "(onBoard g \<longrightarrow> onBoard g') \<and> (synced g \<longrightarrow> synced g')"
proof (cases "gameOver g")
  case True
  then show ?thesis using u by (simp add: update_def)
next
  case False
  show ?thesis
  proof (cases "candidate g")
    case None
    then show ?thesis using update_no_head [OF False None, of k] u by simp
  next
    case (Some c)
    let ?g1 = "g\<lparr>directionController := processInput (directionController g)\<rparr>"
    show ?thesis
    proof (cases "isOutOfBounds c (board g) \<or> isWall c (board g) \<or> checkSelfCollision (snake g) c")
      case True
      have "endGame ?g1 = Inr (r, g')"
        using update_blocked [OF False Some True, of k] u by simp
      from endGame_result [OF this] show ?thesis
        by simp
    next
      case nb: False
      let ?g2 = "placeFood k (afterMove c g)"
      have ob: "onBoard g \<Longrightarrow> onBoard ?g2"
        using onBoard_moved [OF con Some] nb by simp
      have "update k g =
           (if \<not> isPresent (foodManager ?g2) \<and> \<not> hasPendingGrowth (snake ?g2)
            then endGame ?g2 else Inr (True, publishState ?g2))"
        using update_moved [OF False Some, of k] nb by (simp add: Let_def)
      then have "endGame ?g2 = Inr (r, g') \<or> g' = publishState ?g2"
        using u by (simp split: if_splits)
      then have "g' = publishState (?g2\<lparr>gameOver := True\<rparr>) \<or> g' = publishState ?g2"
        using endGame_result by blast
      then show ?thesis
        using ob by auto
    qed
  qed
qed

lemma onBoard_setDirection [simp]: "onBoard (setDirection d g) = onBoard g"
  by (simp add: onBoard_def setDirection_def)

lemma synced_setDirection [simp]: "synced (setDirection d g) = synced g"
  by (simp add: synced_def setDirection_def getGameState_def)

lemma played_run:
  assumes "consistent g" and "run calls g = Inr g'"
  shows "consistent g' \<and> (onBoard g \<longrightarrow> onBoard g') \<and> (synced g \<longrightarrow> synced g')"
  using assms
proof (induction calls g rule: run.induct)
  case (1 g)
  then show ?case by simp
next
  case (2 d cs g)
  then show ?case by simp
next
  case (3 k cs g)
  from "3.prems"(2) obtain r g1 where u: "update k g = Inr (r, g1)" and r: "run cs g1 = Inr g'"
    by (auto split: sum.splits)
  have c1: "consistent g1" by (rule consistent_update [OF "3.prems"(1) u])
  show ?case
    using "3.IH" [OF u refl c1 r] onBoard_synced_update [OF "3.prems"(1) u] by simp
qed

lemma synced_initializeBoard:
  "initializeBoard rs cs len ppf dir k g = Inr g0 \<Longrightarrow> synced g0"
  by (auto simp: initializeBoard_result split: if_splits)


section \<open>The 32-bit addition of the score\<close>

lemma to_int32_in_range:
  "- 2147483648 \<le> x \<Longrightarrow> x < 2147483648 \<Longrightarrow> to_int32 x = x"
  by (simp add: to_int32_def)

lemma to_int32_range: "- 2147483648 \<le> to_int32 x \<and> to_int32 x < 2147483648"
  by (simp add: to_int32_def)

section \<open>No growth is pending between two calls\<close>

lemma afterMove_snake:
  assumes "growthPending (snake g) = 0"
  shows "body (snake (afterMove c g)) =
           (if isFood c (foodManager g) then c # body (snake g)
            else butlast (c # body (snake g)))"
    and "growthPending (snake (afterMove c g)) = 0"
  using assms by (simp_all add: afterMove_def moveSnake_fields move_body eatFood_fields)

lemma growth_update:
  assumes gp: "growthPending (snake g) = 0" and u: "update k g = Inr (r, g')"
  shows "growthPending (snake g') = 0"
proof (cases "gameOver g")
  case True
  then show ?thesis using gp u by (simp add: update_def)
next
  case False
  show ?thesis
  proof (cases "candidate g")
    case None
    then show ?thesis using update_no_head [OF False None, of k] u by simp
  next
    case (Some c)
    let ?g1 = "g\<lparr>directionController := processInput (directionController g)\<rparr>"
    show ?thesis
    proof (cases "isOutOfBounds c (board g) \<or> isWall c (board g) \<or> checkSelfCollision (snake g) c")
      case True
      have "endGame ?g1 = Inr (r, g')"
        using update_blocked [OF False Some True, of k] u by simp
      from endGame_result [OF this] show ?thesis using gp by simp
    next
      case nb: False
      let ?g2 = "placeFood k (afterMove c g)"
      have "update k g =
           (if \<not> isPresent (foodManager ?g2) \<and> \<not> hasPendingGrowth (snake ?g2)
            then endGame ?g2 else Inr (True, publishState ?g2))"
        using update_moved [OF False Some, of k] nb by (simp add: Let_def)
      then have "endGame ?g2 = Inr (r, g') \<or> g' = publishState ?g2"
        using u by (simp split: if_splits)
      then have "g' = publishState (?g2\<lparr>gameOver := True\<rparr>) \<or> g' = publishState ?g2"
        using endGame_result by blast
      then show ?thesis
        using afterMove_snake(2) [OF gp, of c] by (auto simp: placeFood_fields)
    qed
  qed
qed

lemma growth_run:
  assumes "growthPending (snake g) = 0" and "run calls g = Inr g'"
  shows "growthPending (snake g') = 0"
  using assms
proof (induction calls g rule: run.induct)
  case (1 g)
  then show ?case by simp
next
  case (2 d cs g)
  then show ?case by (simp add: setDirection_def)
next
  case (3 k cs g)
  from "3.prems"(2) obtain r g1 where u: "update k g = Inr (r, g1)" and r: "run cs g1 = Inr g'"
    by (auto split: sum.splits)
  show ?case
    using "3.IH" [OF u refl growth_update [OF "3.prems"(1) u] r] .
qed

lemma growth_initializeBoard:
  "initializeBoard rs cs len ppf dir k g = Inr g0 \<Longrightarrow> growthPending (snake g0) = 0"
  by (auto simp: initializeBoard_result Snake_initialize_def Let_def split: if_splits)

section \<open>Counting the cells of a tag\<close>

lemma length_filter_concat:
  "length (filter P (concat G)) =
     card (SIGMA i:{0..<length G}. {j. j < length (G ! i) \<and> P (G ! i ! j)})"
proof -
  have "length (filter P (concat G)) = sum_list (map (\<lambda>row. length (filter P row)) G)"
    by (induction G) simp_all
  also have "\<dots> = (\<Sum>i = 0..<length G. length (filter P (G ! i)))"
    by (simp add: sum_list_sum_nth)
  also have "\<dots> = (\<Sum>i = 0..<length G. card {j. j < length (G ! i) \<and> P (G ! i ! j)})"
    by (simp add: length_filter_conv_card)
  also have "\<dots> = card (SIGMA i:{0..<length G}. {j. j < length (G ! i) \<and> P (G ! i ! j)})"
    by (simp add: card_SigmaI)
  finally show ?thesis .
qed

lemma countCells_card:
  assumes ok: "board_ok b" and t: "t \<noteq> WALL"
  shows "countCells t b = card {(r, c). getCellType b r c = t}"
proof -
  let ?S = "SIGMA i:{0..<length (grid b)}. {j. j < length (grid b ! i) \<and> grid b ! i ! j = t}"
  let ?f = "\<lambda>(i, j). (int i, int j)"
  have inj: "inj_on ?f ?S" by (auto simp: inj_on_def)
  have "{(r, c). getCellType b r c = t} = ?f ` ?S"
  proof (intro set_eqI iffI)
    fix p assume "p \<in> {(r, c). getCellType b r c = t}"
    then obtain r c where p: "p = (r, c)" and g: "getCellType b r c = t" by auto
    from g t have inb: "isInBounds b r c" and v: "grid b ! nat r ! nat c = t"
      by (auto simp: getCellType_def split: if_splits)
    from inb ok have "nat r < length (grid b)" "nat c < length (grid b ! nat r)"
      by (auto simp: board_ok_def isInBounds_def)
    with v have "(nat r, nat c) \<in> ?S" by simp
    moreover have "?f (nat r, nat c) = p" using inb p by (simp add: isInBounds_def)
    ultimately show "p \<in> ?f ` ?S" by (metis (no_types, lifting) image_eqI)
  next
    fix p assume "p \<in> ?f ` ?S"
    then obtain i j where p: "p = (int i, int j)" and i: "i < length (grid b)"
      and j: "j < length (grid b ! i)" and v: "grid b ! i ! j = t" by auto
    from i j ok have "isInBounds b (int i) (int j)"
      by (auto simp: board_ok_def isInBounds_def)
    then show "p \<in> {(r, c). getCellType b r c = t}"
      using p v by (simp add: getCellType_def)
  qed
  then have "card {(r, c). getCellType b r c = t} = card ?S"
    using card_image [OF inj] by simp
  then show ?thesis
    by (simp add: countCells_def length_filter_concat)
qed

lemma snake_cells_of_consistent:
  assumes "consistent g" and "onBoard g"
  shows "countCells SNAKE (board g) = length (body (snake g))"
proof -
  have ok: "board_ok (board g)" and d: "distinct (body (snake g))"
    and sn: "\<And>r c. getCellType (board g) r c = SNAKE \<longleftrightarrow>
               isInBounds (board g) r c \<and> (r, c) \<in> set (body (snake g))"
    using assms(1) by (simp_all add: consistent_def tagged_def)
  have "{(r, c). getCellType (board g) r c = SNAKE} = set (body (snake g))"
    using sn assms(2) by (auto simp: onBoard_def)
  then show ?thesis
    using countCells_card [OF ok, of SNAKE] d by (simp add: distinct_card)
qed

section \<open>The heading\<close>

lemma isValidChange_iff: "isValidChange dc d \<longleftrightarrow> \<not> isReversal (current dc) d"
  by (auto simp: isValidChange_def isReversal_def)

lemma controllerAfter_next: "next (controllerAfter calls) = current (controllerAfter calls)"
proof (induction calls rule: rev_induct)
  case Nil
  show ?case by (simp add: controllerAfter_def DirectionController_new_def)
next
  case (snoc c calls)
  then show ?case
    by (cases c)
       (simp_all add: controllerAfter_def DirectionController_initialize_def setInput_def
          processInput_next)
qed

lemma controllerAfter_any:
  "current (controllerAfter [Initialize h, SetInput m]) = h \<and>
   atomicInput (controllerAfter [Initialize h, SetInput m]) = m"
  by (simp add: controllerAfter_def DirectionController_initialize_def setInput_def)

lemma processInput_current:
  assumes "next dc = current dc"
  shows "current (processInput dc) =
           (if atomicInput dc \<noteq> NONE \<and> \<not> isReversal (current dc) (atomicInput dc)
            then atomicInput dc else current dc)"
  using assms by (simp add: processInput_def Let_def isValidChange_iff isValidChange_def)

lemma processInput_clears: "atomicInput (processInput dc) = NONE"
  by (simp add: processInput_def Let_def)

section \<open>Snapshots and the two buffers\<close>

text \<open>
  \<^verbatim>\<open>publish\<close> alternates between the two objects the constructor allocated: the third
  publish writes into the object the first one published.
\<close>

lemma publish_third_reuses_first:
  assumes "writeBuffer p \<noteq> readBuffer p"
  shows "let p1 = publish b1 sn1 fm1 sc1 o1 p;
             p3 = publish b3 sn3 fm3 sc3 o3 (publish b2 sn2 fm2 sc2 o2 p1)
         in getState p3 = getState p1 \<and>
            gs_score (deref p1 (getState p1)) = sc1 \<and>
            gs_score (deref p3 (getState p1)) = sc3"
  using assms by (simp add: publish_def getState_def deref_def Let_def)

text \<open>
  C1. The claim is that the object current at some publish is never written by a later
  publish, so that a reader holding it keeps reading the same values. The code does not
  do this. A game on a 1 x 3 board: \<^verbatim>\<open>initializeBoard\<close> publishes the object at
  address 0 (score 0, not over, one segment); the first tick eats the food and publishes
  the other object; the second tick runs off the board and publishes the object at
  address 0 again, which now reads score 10, game over, two segments.
\<close>

theorem snapshot_overwritten:
  "\<not> isl (play 1 3 1 10 LEFT 0 [Update 0, Update 0]) \<and>
   getState (statePublisher (the_game (play 1 3 1 10 LEFT 0 []))) = 0 \<and>
   gs_score (deref (statePublisher (the_game (play 1 3 1 10 LEFT 0 []))) 0) = 0 \<and>
   gs_gameOver (deref (statePublisher (the_game (play 1 3 1 10 LEFT 0 []))) 0) = False \<and>
   gs_snake (deref (statePublisher (the_game (play 1 3 1 10 LEFT 0 []))) 0) = [(0, 1)] \<and>
   gs_score (deref (statePublisher (the_game (play 1 3 1 10 LEFT 0 [Update 0, Update 0]))) 0) = 10 \<and>
   gs_gameOver (deref (statePublisher (the_game (play 1 3 1 10 LEFT 0 [Update 0, Update 0]))) 0) = True \<and>
   gs_snake (deref (statePublisher (the_game (play 1 3 1 10 LEFT 0 [Update 0, Update 0]))) 0) = [(0, 0), (0, 1)]"
  by code_simp

section \<open>The food tick\<close>

text \<open>
  C2, amended. Let a non-terminal state be reached from an \<^verbatim>\<open>initializeBoard\<close> by calls
  of \<^verbatim>\<open>setDirection\<close> and \<^verbatim>\<open>update\<close>, and let the snake have a head. If the initial
  direction was not \<^verbatim>\<open>NONE\<close> and the position computed for the new head is the position
  of the existing food, one call of \<^verbatim>\<open>update\<close> adds one segment to the snake and stores
  as the score the 32-bit sum of the score and \<^verbatim>\<open>pointsPerFood\<close>: the score increases by
  exactly \<^verbatim>\<open>pointsPerFood\<close> whenever that sum is in the range of an \<^verbatim>\<open>int\<close>, from
  \<open>-2^31\<close> to \<open>2^31 - 1\<close>, and wraps around otherwise. The growth is registered and the
  food removed before the move, so the new body is the new head in front of the whole
  old body, and the cell of the new head is tagged \<^verbatim>\<open>SNAKE\<close>. If the computed position
  is not the food, the length of the snake is unchanged, whether the tick ends the game
  or moves the snake.
\<close>

theorem food_tick:
  assumes init: "initializeBoard rs cs len ppf dir k0 g0 = Inr g1"
    and run: "run calls g1 = Inr g" and live: "\<not> gameOver g" and cand: "candidate g = Some c"
  shows "(dir \<noteq> NONE \<and> isFood c (foodManager g) \<longrightarrow>
            (\<exists>r g'. update k g = Inr (r, g') \<and>
               score g' = to_int32 (score g + pointsPerFood g) \<and>
               (- 2147483648 \<le> score g + pointsPerFood g \<and>
                score g + pointsPerFood g < 2147483648 \<longrightarrow>
                  score g' = score g + pointsPerFood g) \<and>
               body (snake g') = c # body (snake g) \<and>
               length (body (snake g')) = Suc (length (body (snake g))) \<and>
               getCellType (board g') (fst c) (snd c) = SNAKE)) \<and>
         (\<not> isFood c (foodManager g) \<longrightarrow>
            (\<exists>r g'. update k g = Inr (r, g') \<and>
               length (body (snake g')) = length (body (snake g))))"
proof -
  let ?g1 = "g\<lparr>directionController := processInput (directionController g)\<rparr>"
  let ?g2 = "placeFood k (afterMove c g)"
  have gp: "growthPending (snake g) = 0"
    by (rule growth_run [OF growth_initializeBoard [OF init] run])
  have moved: "\<exists>r g'. update k g = Inr (r, g') \<and> score g' = score ?g2 \<and>
      snake g' = snake ?g2 \<and> board g' = board ?g2"
    if "\<not> isOutOfBounds c (board g)" "\<not> isWall c (board g)" "\<not> checkSelfCollision (snake g) c"
    using update_moved [OF live cand that, of k] by (auto simp: Let_def endGame_def)
  have ne: "body (snake g) \<noteq> []"
    using cand by (auto simp: candidate_def getHead_def)
  show ?thesis
  proof (intro conjI impI)
    assume df: "dir \<noteq> NONE \<and> isFood c (foodManager g)"
    then have f: "isFood c (foodManager g)" and dir: "dir \<noteq> NONE" by simp_all
    have con: "consistent g"
      using played_run [OF consistent_initializeBoard [OF init dir] run] by simp
    then have tg: "tagged (board g) (body (snake g)) (foodManager g)"
      by (simp add: consistent_def)
    from f have ex: "exists (foodManager g)" and p: "position (foodManager g) = c"
      by (simp_all add: isFood_def isPresent_def)
    note tf = tagged_food [OF tg ex]
    have nb: "\<not> isOutOfBounds c (board g)" "\<not> isWall c (board g)"
      "\<not> checkSelfCollision (snake g) c"
      using tf p by (auto simp: isOutOfBounds_def isWall_def checkSelfCollision_def dest: in_set_dropD)
    note a = afterMove_effect [OF con cand nb(1,3)]
    from moved [OF nb] obtain r g' where u: "update k g = Inr (r, g')"
      and s: "score g' = score ?g2" "snake g' = snake ?g2" "board g' = board ?g2" by blast
    have c2: "consistent ?g2" by (rule consistent_moved [OF con cand nb(1,3)])
    have bd: "body (snake ?g2) = c # body (snake g)"
      using a(4) f by (simp add: placeFood_fields)
    have ib: "isInBounds (board ?g2) (fst c) (snd c)"
      using nb(1) a(7,8) by (simp add: isInBounds_def isOutOfBounds_def placeFood_fields placeRandom_dims)
    have "getCellType (board ?g2) (fst c) (snd c) = SNAKE"
      using c2 ib bd tagged_segment [of "board ?g2" "body (snake ?g2)" "foodManager ?g2" c]
      by (simp add: consistent_def)
    then show "\<exists>r g'. update k g = Inr (r, g') \<and>
               score g' = to_int32 (score g + pointsPerFood g) \<and>
               (- 2147483648 \<le> score g + pointsPerFood g \<and>
                score g + pointsPerFood g < 2147483648 \<longrightarrow>
                  score g' = score g + pointsPerFood g) \<and>
               body (snake g') = c # body (snake g) \<and>
               length (body (snake g')) = Suc (length (body (snake g))) \<and>
               getCellType (board g') (fst c) (snd c) = SNAKE"
      using u s bd a(5) f by (simp add: placeFood_fields to_int32_in_range)
  next
    assume nf: "\<not> isFood c (foodManager g)"
    show "\<exists>r g'. update k g = Inr (r, g') \<and> length (body (snake g')) = length (body (snake g))"
    proof (cases "isOutOfBounds c (board g) \<or> isWall c (board g) \<or> checkSelfCollision (snake g) c")
      case True
      show ?thesis
        using update_blocked [OF live cand True, of k] endGame_effect [of ?g1] by auto
    next
      case False
      then have nb: "\<not> isOutOfBounds c (board g)" "\<not> isWall c (board g)"
        "\<not> checkSelfCollision (snake g) c" by simp_all
      from moved [OF nb] obtain r g' where u: "update k g = Inr (r, g')"
        and s: "snake g' = snake ?g2" by blast
      have "length (body (snake ?g2)) = length (body (snake g))"
        using afterMove_snake(1) [OF gp, of c] nf ne by (simp add: placeFood_fields)
      then show ?thesis using u s by simp
    qed
  qed
qed

text \<open>
  On a 1 x 3 board the snake of one segment heads left onto the food at \<open>(0, 0)\<close>; on a
  4 x 4 board the snake of three segments heads right onto an empty cell.
\<close>

theorem food_tick_witness:
  "initializeBoard 1 3 1 10 LEFT 0 SnakeGameLogic_new =
     Inr (the_game (initializeBoard 1 3 1 10 LEFT 0 SnakeGameLogic_new)) \<and>
   LEFT \<noteq> NONE \<and>
   \<not> gameOver (the_game (initializeBoard 1 3 1 10 LEFT 0 SnakeGameLogic_new)) \<and>
   candidate (the_game (initializeBoard 1 3 1 10 LEFT 0 SnakeGameLogic_new)) = Some (0, 0) \<and>
   isFood (0, 0) (foodManager (the_game (initializeBoard 1 3 1 10 LEFT 0 SnakeGameLogic_new))) \<and>
   - 2147483648 \<le> score (the_game (initializeBoard 1 3 1 10 LEFT 0 SnakeGameLogic_new)) +
       pointsPerFood (the_game (initializeBoard 1 3 1 10 LEFT 0 SnakeGameLogic_new)) \<and>
   score (the_game (initializeBoard 1 3 1 10 LEFT 0 SnakeGameLogic_new)) +
       pointsPerFood (the_game (initializeBoard 1 3 1 10 LEFT 0 SnakeGameLogic_new)) < 2147483648 \<and>
   (\<exists>r g'. update 0 (the_game (initializeBoard 1 3 1 10 LEFT 0 SnakeGameLogic_new)) = Inr (r, g') \<and>
      score g' = 10 \<and> body (snake g') = [(0, 0), (0, 1)]) \<and>
   initializeBoard 4 4 3 10 RIGHT 0 SnakeGameLogic_new =
     Inr (the_game (initializeBoard 4 4 3 10 RIGHT 0 SnakeGameLogic_new)) \<and>
   RIGHT \<noteq> NONE \<and>
   \<not> gameOver (the_game (initializeBoard 4 4 3 10 RIGHT 0 SnakeGameLogic_new)) \<and>
   candidate (the_game (initializeBoard 4 4 3 10 RIGHT 0 SnakeGameLogic_new)) = Some (2, 3) \<and>
   \<not> isFood (2, 3) (foodManager (the_game (initializeBoard 4 4 3 10 RIGHT 0 SnakeGameLogic_new))) \<and>
   (\<exists>r g'. update 0 (the_game (initializeBoard 4 4 3 10 RIGHT 0 SnakeGameLogic_new)) = Inr (r, g') \<and>
      length (body (snake g')) = 3)"
proof -
  let ?i = "initializeBoard 1 3 1 10 LEFT 0 SnakeGameLogic_new"
  let ?j = "initializeBoard 4 4 3 10 RIGHT 0 SnakeGameLogic_new"
  have "\<not> isl ?i" by code_simp
  then have i1: "?i = Inr (the_game ?i)" by (rule the_game_Inr)
  have i2: "LEFT \<noteq> NONE" by simp
  have i3: "run [] (the_game ?i) = Inr (the_game ?i)" by simp
  have i4: "\<not> gameOver (the_game ?i)" by code_simp
  have i5: "candidate (the_game ?i) = Some (0, 0)" by code_simp
  have i6: "isFood (0, 0) (foodManager (the_game ?i))" by code_simp
  have i7: "score (the_game ?i) = 0" "pointsPerFood (the_game ?i) = 10"
    "body (snake (the_game ?i)) = [(0, 1)]" by code_simp+
  have "\<not> isl ?j" by code_simp
  then have j1: "?j = Inr (the_game ?j)" by (rule the_game_Inr)
  have j2: "RIGHT \<noteq> NONE" by simp
  have j3: "run [] (the_game ?j) = Inr (the_game ?j)" by simp
  have j4: "\<not> gameOver (the_game ?j)" by code_simp
  have j5: "candidate (the_game ?j) = Some (2, 3)" by code_simp
  have j6: "\<not> isFood (2, 3) (foodManager (the_game ?j))" by code_simp
  have j7: "length (body (snake (the_game ?j))) = 3" by code_simp
  have a: "\<exists>r g'. update 0 (the_game ?i) = Inr (r, g') \<and> score g' = 10 \<and>
      body (snake g') = [(0, 0), (0, 1)]"
    using food_tick [OF i1 i3 i4 i5, of 0] i2 i6 i7 by auto
  have b: "\<exists>r g'. update 0 (the_game ?j) = Inr (r, g') \<and> length (body (snake g')) = 3"
    using food_tick [OF j1 j3 j4 j5, of 0] j6 j7 by auto
  have i8: "- 2147483648 \<le> score (the_game ?i) + pointsPerFood (the_game ?i)"
    "score (the_game ?i) + pointsPerFood (the_game ?i) < 2147483648"
    using i7 by simp_all
  show ?thesis
    using i1 i2 i4 i5 i6 i8 a j1 j2 j4 j5 j6 b by blast
qed

text \<open>
  The claim as it was stated fails in two ways.

  In a game initialised without a heading: on a 3 x 3 board the three segments start on
  one cell \<open>(1, 1)\<close>; the first move clears the tag of that cell although two segments
  are still on it, so that after the snake has eaten the food at \<open>(2, 2)\<close> the new food
  can be placed at \<open>(1, 1)\<close>, under the tail. When the head comes round to \<open>(1, 1)\<close> the
  position computed for it is the position of the food, and the tick ends the game by
  the self-collision check: score and length stay.

  When the sum leaves the range of an \<^verbatim>\<open>int\<close>: on a 1 x 4 board with 2147483647 points
  for each food, the snake heading left eats twice; the first food tick leaves the score
  2147483647, and the second, in a non-terminal state whose computed position is the
  food, leaves it -2.
\<close>

theorem food_tick_fails:
  "\<not> isl (play 3 3 3 10 NONE 7
      [SetDirection RIGHT, Update 0, SetDirection DOWN, Update 4, SetDirection LEFT, Update 0,
       SetDirection UP]) \<and>
   \<not> gameOver (the_game (play 3 3 3 10 NONE 7
      [SetDirection RIGHT, Update 0, SetDirection DOWN, Update 4, SetDirection LEFT, Update 0,
       SetDirection UP])) \<and>
   candidate (the_game (play 3 3 3 10 NONE 7
      [SetDirection RIGHT, Update 0, SetDirection DOWN, Update 4, SetDirection LEFT, Update 0,
       SetDirection UP])) = Some (1, 1) \<and>
   foodManager (the_game (play 3 3 3 10 NONE 7
      [SetDirection RIGHT, Update 0, SetDirection DOWN, Update 4, SetDirection LEFT, Update 0,
       SetDirection UP])) = \<lparr>position = (1, 1), exists = True\<rparr> \<and>
   score (the_game (play 3 3 3 10 NONE 7
      [SetDirection RIGHT, Update 0, SetDirection DOWN, Update 4, SetDirection LEFT, Update 0,
       SetDirection UP])) = 10 \<and>
   body (snake (the_game (play 3 3 3 10 NONE 7
      [SetDirection RIGHT, Update 0, SetDirection DOWN, Update 4, SetDirection LEFT, Update 0,
       SetDirection UP]))) = [(2, 1), (2, 2), (1, 2), (1, 1)] \<and>
   \<not> isl (play 3 3 3 10 NONE 7
      [SetDirection RIGHT, Update 0, SetDirection DOWN, Update 4, SetDirection LEFT, Update 0,
       SetDirection UP, Update 0]) \<and>
   gameOver (the_game (play 3 3 3 10 NONE 7
      [SetDirection RIGHT, Update 0, SetDirection DOWN, Update 4, SetDirection LEFT, Update 0,
       SetDirection UP, Update 0])) \<and>
   score (the_game (play 3 3 3 10 NONE 7
      [SetDirection RIGHT, Update 0, SetDirection DOWN, Update 4, SetDirection LEFT, Update 0,
       SetDirection UP, Update 0])) = 10 \<and>
   body (snake (the_game (play 3 3 3 10 NONE 7
      [SetDirection RIGHT, Update 0, SetDirection DOWN, Update 4, SetDirection LEFT, Update 0,
       SetDirection UP, Update 0]))) = [(2, 1), (2, 2), (1, 2), (1, 1)] \<and>
   \<not> isl (play 1 4 1 2147483647 LEFT 1 [Update 0, Update 0]) \<and>
   \<not> gameOver (the_game (play 1 4 1 2147483647 LEFT 1 [Update 0])) \<and>
   candidate (the_game (play 1 4 1 2147483647 LEFT 1 [Update 0])) = Some (0, 0) \<and>
   foodManager (the_game (play 1 4 1 2147483647 LEFT 1 [Update 0])) =
     \<lparr>position = (0, 0), exists = True\<rparr> \<and>
   score (the_game (play 1 4 1 2147483647 LEFT 1 [Update 0])) = 2147483647 \<and>
   pointsPerFood (the_game (play 1 4 1 2147483647 LEFT 1 [Update 0])) = 2147483647 \<and>
   score (the_game (play 1 4 1 2147483647 LEFT 1 [Update 0, Update 0])) = - 2 \<and>
   length (body (snake (the_game (play 1 4 1 2147483647 LEFT 1 [Update 0, Update 0])))) = 3"
  by code_simp

section \<open>Snake cells and segments\<close>

text \<open>
  C3, amended. When \<^verbatim>\<open>initializeBoard\<close> is called with an initial direction other than
  \<^verbatim>\<open>NONE\<close> and every segment of the initial layout lies on the board, then after
  \<^verbatim>\<open>initializeBoard\<close> and after every later call of \<^verbatim>\<open>setDirection\<close> or \<^verbatim>\<open>update\<close> the
  number of cells tagged \<^verbatim>\<open>SNAKE\<close> is the number of segments of the snake, on the board
  and in the published snapshot.
\<close>

theorem snake_cells_match_segments:
  assumes "initializeBoard rs cs len ppf dir k g = Inr g0" and "dir \<noteq> NONE"
    and "onBoard g0" and "run calls g0 = Inr g'"
  shows "countCells SNAKE (board g') = length (body (snake g')) \<and>
         length (filter (\<lambda>x. x = SNAKE) (concat (gs_board (getGameState g')))) =
           nat (gs_snakeLength (getGameState g'))"
proof -
  have c0: "consistent g0" by (rule consistent_initializeBoard [OF assms(1,2)])
  have s0: "synced g0" by (rule synced_initializeBoard [OF assms(1)])
  from played_run [OF c0 assms(4)] assms(3) s0
  have c: "consistent g'" and o: "onBoard g'" and s: "synced g'" by simp_all
  have n: "countCells SNAKE (board g') = length (body (snake g'))"
    by (rule snake_cells_of_consistent [OF c o])
  then show ?thesis
    using s by (simp add: synced_def countCells_def)
qed

text \<open>A 4 x 4 board, three segments heading right; the snake eats and turns down.\<close>

theorem snake_cells_match_segments_witness:
  "initializeBoard 4 4 3 10 RIGHT 8 SnakeGameLogic_new =
     Inr (the_game (initializeBoard 4 4 3 10 RIGHT 8 SnakeGameLogic_new)) \<and>
   RIGHT \<noteq> NONE \<and> onBoard (the_game (initializeBoard 4 4 3 10 RIGHT 8 SnakeGameLogic_new)) \<and>
   run [Update 0, SetDirection DOWN, Update 0]
       (the_game (initializeBoard 4 4 3 10 RIGHT 8 SnakeGameLogic_new)) =
     Inr (the_game (run [Update 0, SetDirection DOWN, Update 0]
            (the_game (initializeBoard 4 4 3 10 RIGHT 8 SnakeGameLogic_new)))) \<and>
   countCells SNAKE (board (the_game (run [Update 0, SetDirection DOWN, Update 0]
            (the_game (initializeBoard 4 4 3 10 RIGHT 8 SnakeGameLogic_new))))) = 4 \<and>
   length (body (snake (the_game (run [Update 0, SetDirection DOWN, Update 0]
            (the_game (initializeBoard 4 4 3 10 RIGHT 8 SnakeGameLogic_new)))))) = 4"
proof -
  let ?i = "initializeBoard 4 4 3 10 RIGHT 8 SnakeGameLogic_new"
  let ?r = "run [Update 0, SetDirection DOWN, Update 0] (the_game ?i)"
  have "\<not> isl ?i" by code_simp
  then have h1: "?i = Inr (the_game ?i)" by (rule the_game_Inr)
  have h2: "RIGHT \<noteq> NONE" by simp
  have h3: "onBoard (the_game ?i)" by code_simp
  have "\<not> isl ?r" by code_simp
  then have h4: "?r = Inr (the_game ?r)" by (rule the_game_Inr)
  have l: "length (body (snake (the_game ?r))) = 4" by code_simp
  show ?thesis
    using snake_cells_match_segments [OF h1 h2 h3 h4] h1 h2 h3 h4 l by simp
qed

text \<open>
  The claim as it was stated fails in two ways. With three segments heading right on a
  3 x 3 board the third segment is off the board, and two cells are tagged for three
  segments. With one segment and the initial direction \<^verbatim>\<open>NONE\<close> the first tick moves
  the head onto its own cell and then clears the tag of the tail, which is that cell:
  no cell is tagged for one segment.
\<close>

theorem snake_cells_mismatch:
  "\<not> isl (play 3 3 3 10 RIGHT 0 []) \<and>
   countCells SNAKE (board (the_game (play 3 3 3 10 RIGHT 0 []))) = 2 \<and>
   length (body (snake (the_game (play 3 3 3 10 RIGHT 0 [])))) = 3 \<and>
   \<not> isl (play 3 3 1 10 NONE 0 [Update 0]) \<and>
   countCells SNAKE (board (the_game (play 3 3 1 10 NONE 0 [Update 0]))) = 0 \<and>
   length (body (snake (the_game (play 3 3 1 10 NONE 0 [Update 0])))) = 1"
  by code_simp

section \<open>Distinct segments\<close>

text \<open>
  C4, amended. In every state reached from an \<^verbatim>\<open>initializeBoard\<close> whose initial
  direction is not \<^verbatim>\<open>NONE\<close>, by any sequence of \<^verbatim>\<open>setDirection\<close> and \<^verbatim>\<open>update\<close> calls,
  no two segments of the snake have the same position.
\<close>

theorem segments_distinct:
  assumes "initializeBoard rs cs len ppf dir k g = Inr g0" and "dir \<noteq> NONE"
    and "run calls g0 = Inr g'"
  shows "distinct (body (snake g'))"
proof -
  have "consistent g0" by (rule consistent_initializeBoard [OF assms(1,2)])
  from played_run [OF this assms(3)] show ?thesis by (simp add: consistent_def)
qed

theorem segments_distinct_witness:
  "initializeBoard 4 4 3 10 RIGHT 8 SnakeGameLogic_new =
     Inr (the_game (initializeBoard 4 4 3 10 RIGHT 8 SnakeGameLogic_new)) \<and>
   RIGHT \<noteq> NONE \<and>
   run [Update 0, SetDirection DOWN, Update 0] (the_game (initializeBoard 4 4 3 10 RIGHT 8 SnakeGameLogic_new)) =
     Inr (the_game (run [Update 0, SetDirection DOWN, Update 0]
            (the_game (initializeBoard 4 4 3 10 RIGHT 8 SnakeGameLogic_new)))) \<and>
   distinct (body (snake (the_game (run [Update 0, SetDirection DOWN, Update 0]
            (the_game (initializeBoard 4 4 3 10 RIGHT 8 SnakeGameLogic_new))))))"
proof -
  let ?i = "initializeBoard 4 4 3 10 RIGHT 8 SnakeGameLogic_new"
  let ?r = "run [Update 0, SetDirection DOWN, Update 0] (the_game ?i)"
  have "\<not> isl ?i" by code_simp
  then have h1: "?i = Inr (the_game ?i)" by (rule the_game_Inr)
  have h2: "RIGHT \<noteq> NONE" by simp
  have "\<not> isl ?r" by code_simp
  then have h3: "?r = Inr (the_game ?r)" by (rule the_game_Inr)
  show ?thesis
    using segments_distinct [OF h1 h2 h3] h1 h2 h3 by blast
qed

text \<open>
  The claim as it was stated fails for the initial direction \<^verbatim>\<open>NONE\<close>: the three
  segments are laid out on the start cell.
\<close>

theorem segments_overlap_without_heading:
  "\<not> isl (play 3 3 3 10 NONE 0 []) \<and>
   body (snake (the_game (play 3 3 3 10 NONE 0 []))) = [(1, 1), (1, 1), (1, 1)]"
  by code_simp

section \<open>Consuming the pending input\<close>

text \<open>
  C5. For every controller the calls of the class can produce (every heading and every
  content of the mailbox occur, by \<open>controllerAfter_any\<close>), \<^verbatim>\<open>processInput\<close> leaves
  \<^verbatim>\<open>NONE\<close> in the mailbox, and the heading becomes the value taken from it exactly when
  that value is not \<^verbatim>\<open>NONE\<close> and not the reversal of the heading; otherwise the heading
  stays. In particular, with the heading \<^verbatim>\<open>RIGHT\<close>, \<^verbatim>\<open>setInput(LEFT)\<close> followed by
  \<^verbatim>\<open>processInput\<close> leaves the heading \<^verbatim>\<open>RIGHT\<close>.
\<close>

theorem processInput_heading:
  "atomicInput (processInput (controllerAfter calls)) = NONE \<and>
   current (processInput (controllerAfter calls)) =
     (if atomicInput (controllerAfter calls) \<noteq> NONE \<and>
         \<not> isReversal (current (controllerAfter calls)) (atomicInput (controllerAfter calls))
      then atomicInput (controllerAfter calls) else current (controllerAfter calls)) \<and>
   (current (controllerAfter calls) = RIGHT \<longrightarrow>
      current (processInput (setInput LEFT (controllerAfter calls))) = RIGHT)"
proof -
  let ?dc = "controllerAfter calls"
  have n: "next ?dc = current ?dc" by (rule controllerAfter_next)
  have n': "next (setInput LEFT ?dc) = current (setInput LEFT ?dc)"
    using n by (simp add: setInput_def)
  have "current ?dc = RIGHT \<longrightarrow> current (processInput (setInput LEFT ?dc)) = RIGHT"
    using processInput_current [OF n'] by (simp add: setInput_def isReversal_def)
  then show ?thesis
    using processInput_current [OF n] processInput_clears [of ?dc] by simp
qed

theorem processInput_heading_witness:
  "current (controllerAfter [Initialize RIGHT]) = RIGHT \<and>
   current (processInput (setInput LEFT (controllerAfter [Initialize RIGHT]))) = RIGHT \<and>
   atomicInput (processInput (setInput LEFT (controllerAfter [Initialize RIGHT]))) = NONE \<and>
   current (processInput (setInput UP (controllerAfter [Initialize RIGHT]))) = UP"
proof -
  have h: "current (controllerAfter [Initialize RIGHT]) = RIGHT" by code_simp
  have e: "setInput UP (controllerAfter [Initialize RIGHT]) = controllerAfter [Initialize RIGHT, SetInput UP]"
    "setInput LEFT (controllerAfter [Initialize RIGHT]) = controllerAfter [Initialize RIGHT, SetInput LEFT]"
    by (simp_all add: controllerAfter_def)
  have a: "atomicInput (controllerAfter [Initialize RIGHT, SetInput UP]) = UP"
     "current (controllerAfter [Initialize RIGHT, SetInput UP]) = RIGHT" by code_simp+
  show ?thesis
    using processInput_heading [of "[Initialize RIGHT]"]
      processInput_heading [of "[Initialize RIGHT, SetInput UP]"]
      processInput_heading [of "[Initialize RIGHT, SetInput LEFT]"] h e a
    by (simp add: isReversal_def)
qed

section \<open>The full board\<close>

text \<open>
  C6. In a tick on a non-terminal state that passes the three terminal checks, if after
  the move no food is present, the board has no empty cell and no growth is pending,
  \<^verbatim>\<open>update\<close> sets the terminal flag, publishes a terminal snapshot (exactly one publish)
  and returns false.
\<close>

theorem update_board_full:
  assumes "\<not> gameOver g" and "candidate g = Some c"
    and "\<not> isOutOfBounds c (board g)" and "\<not> isWall c (board g)"
    and "\<not> checkSelfCollision (snake g) c"
    and "\<not> isPresent (foodManager (afterMove c g))"
    and "getEmptyCells (board (afterMove c g)) = []"
    and "\<not> hasPendingGrowth (snake (afterMove c g))"
  shows "\<exists>g'. update k g = Inr (False, g') \<and> gameOver g' \<and> gs_gameOver (getGameState g') \<and>
           publishes (statePublisher g') = Suc (publishes (statePublisher g))"
proof -
  let ?g2 = "placeFood k (afterMove c g)"
  have fm: "\<not> isPresent (foodManager ?g2)" and sn: "snake ?g2 = snake (afterMove c g)"
    using assms(6,7) by (simp_all add: placeFood_def placeRandom_def isPresent_def)
  have "update k g = endGame ?g2"
    using update_moved [OF assms(1-5), of k] fm sn assms(8) by (simp add: Let_def)
  moreover have "statePublisher ?g2 = statePublisher g"
    by (simp add: afterMove_def)
  ultimately show ?thesis
    using endGame_effect [of ?g2] by auto
qed

text \<open>The snake of one segment on a 1 x 2 board eats the food on the only other cell.\<close>

theorem update_board_full_witness:
  "let g = the_game (play 1 2 1 10 LEFT 0 []); c = (0, 0) in
     \<not> gameOver g \<and> candidate g = Some c \<and> \<not> isOutOfBounds c (board g) \<and>
     \<not> isWall c (board g) \<and> \<not> checkSelfCollision (snake g) c \<and>
     \<not> isPresent (foodManager (afterMove c g)) \<and> getEmptyCells (board (afterMove c g)) = [] \<and>
     \<not> hasPendingGrowth (snake (afterMove c g)) \<and>
     (\<exists>g'. update 0 g = Inr (False, g') \<and> gameOver g' \<and> gs_gameOver (getGameState g') \<and>
           publishes (statePublisher g') = Suc (publishes (statePublisher g)))"
proof -
  let ?g = "the_game (play 1 2 1 10 LEFT 0 [])"
  let ?c = "(0, 0) :: int \<times> int"
  have h1: "\<not> gameOver ?g" by code_simp
  have h2: "candidate ?g = Some ?c" by code_simp
  have h3: "\<not> isOutOfBounds ?c (board ?g)" by code_simp
  have h4: "\<not> isWall ?c (board ?g)" by code_simp
  have h5: "\<not> checkSelfCollision (snake ?g) ?c" by code_simp
  have h6: "\<not> isPresent (foodManager (afterMove ?c ?g))" by code_simp
  have h7: "getEmptyCells (board (afterMove ?c ?g)) = []" by code_simp
  have h8: "\<not> hasPendingGrowth (snake (afterMove ?c ?g))" by code_simp
  show ?thesis
    unfolding Let_def
    using update_board_full [OF h1 h2 h3 h4 h5 h6 h7 h8, of 0] h1 h2 h3 h4 h5 h6 h7 h8
    by blast
qed

section \<open>The tick on a terminal state\<close>

text \<open>
  C7. When the terminal flag is already set, \<^verbatim>\<open>update\<close> returns false and the object is
  exactly the one it was called on: board, snake, food, score, heading and publisher
  (hence the published snapshot and the number of publishes) are unchanged.
\<close>

theorem update_terminal_noop: "gameOver g \<Longrightarrow> update k g = Inr (False, g)"
  by (simp add: update_def)

text \<open>The game won on the 1 x 2 board is terminal; one more tick leaves it as it is.\<close>

theorem update_terminal_noop_witness:
  "gameOver (the_game (play 1 2 1 10 LEFT 0 [Update 0])) \<and>
   update 0 (the_game (play 1 2 1 10 LEFT 0 [Update 0])) =
     Inr (False, the_game (play 1 2 1 10 LEFT 0 [Update 0]))"
proof -
  have h: "gameOver (the_game (play 1 2 1 10 LEFT 0 [Update 0]))" by code_simp
  show ?thesis using update_terminal_noop [OF h, of 0] h by simp
qed

section \<open>One publish for each tick\<close>

text \<open>
  C8, amended. A call of \<^verbatim>\<open>update\<close> on a state whose terminal flag is not set (and whose
  snake has a head) performs exactly one publish, whichever way the tick ends; a call on
  a state whose terminal flag is set performs none.
\<close>

theorem update_publishes_once:
  "(\<not> gameOver g \<and> body (snake g) \<noteq> [] \<longrightarrow>
      (\<exists>r g'. update k g = Inr (r, g') \<and>
         publishes (statePublisher g') = Suc (publishes (statePublisher g)))) \<and>
   (gameOver g \<longrightarrow>
      (\<exists>r g'. update k g = Inr (r, g') \<and>
         publishes (statePublisher g') = publishes (statePublisher g)))"
proof (intro conjI impI)
  assume "gameOver g"
  then show "\<exists>r g'. update k g = Inr (r, g') \<and>
         publishes (statePublisher g') = publishes (statePublisher g)"
    by (auto simp: update_def)
next
  assume a: "\<not> gameOver g \<and> body (snake g) \<noteq> []"
  then obtain c where c: "candidate g = Some c"
    by (cases "body (snake g)") (auto simp: candidate_def getHead_def)
  from a have live: "\<not> gameOver g" by simp
  show "\<exists>r g'. update k g = Inr (r, g') \<and>
         publishes (statePublisher g') = Suc (publishes (statePublisher g))"
  proof (cases "isOutOfBounds c (board g) \<or> isWall c (board g) \<or> checkSelfCollision (snake g) c")
    case True
    show ?thesis
      using update_blocked [OF live c True, of k]
        endGame_effect [of "g\<lparr>directionController := processInput (directionController g)\<rparr>"]
      by auto
  next
    case False
    let ?g2 = "placeFood k (afterMove c g)"
    have p: "statePublisher ?g2 = statePublisher g" by (simp add: afterMove_def)
    from False have u: "update k g =
           (if \<not> isPresent (foodManager ?g2) \<and> \<not> hasPendingGrowth (snake ?g2)
            then endGame ?g2 else Inr (True, publishState ?g2))"
      using update_moved [OF live c, of k] by (simp add: Let_def)
    show ?thesis
      using u p endGame_effect [of ?g2] by (auto split: if_splits)
  qed
qed

text \<open>
  A 1 x 2 board with a snake of one segment heading left: the tick eats the food and
  fills the board, which is one of the outcomes with a publish; a tick on the terminal
  state it leaves is the other case.
\<close>

theorem update_publishes_once_witness:
  "\<not> gameOver (the_game (play 1 2 1 10 LEFT 0 [])) \<and>
   body (snake (the_game (play 1 2 1 10 LEFT 0 []))) \<noteq> [] \<and>
   (\<exists>r g'. update 0 (the_game (play 1 2 1 10 LEFT 0 [])) = Inr (r, g') \<and>
      publishes (statePublisher g') =
        Suc (publishes (statePublisher (the_game (play 1 2 1 10 LEFT 0 []))))) \<and>
   gameOver (the_game (play 1 2 1 10 LEFT 0 [Update 0])) \<and>
   (\<exists>r g'. update 0 (the_game (play 1 2 1 10 LEFT 0 [Update 0])) = Inr (r, g') \<and>
      publishes (statePublisher g') =
        publishes (statePublisher (the_game (play 1 2 1 10 LEFT 0 [Update 0]))))"
proof -
  let ?g = "the_game (play 1 2 1 10 LEFT 0 [])"
  let ?t = "the_game (play 1 2 1 10 LEFT 0 [Update 0])"
  have h1: "\<not> gameOver ?g" by code_simp
  have h2: "body (snake ?g) \<noteq> []" by code_simp
  have h3: "gameOver ?t" by code_simp
  show ?thesis
    using update_publishes_once [of ?g 0] update_publishes_once [of ?t 0] h1 h2 h3 by blast
qed

text \<open>
  The claim as it was stated fails on a terminal state: the game above has published
  twice when it is won, and still twice after one more call of \<^verbatim>\<open>update\<close>.
\<close>

theorem update_terminal_no_publish:
  "\<not> isl (play 1 2 1 10 LEFT 0 [Update 0]) \<and>
   gameOver (the_game (play 1 2 1 10 LEFT 0 [Update 0])) \<and>
   publishes (statePublisher (the_game (play 1 2 1 10 LEFT 0 [Update 0]))) = 2 \<and>
   \<not> isl (play 1 2 1 10 LEFT 0 [Update 0, Update 0]) \<and>
   publishes (statePublisher (the_game (play 1 2 1 10 LEFT 0 [Update 0, Update 0]))) = 2"
  by code_simp

section \<open>No check of the starting length\<close>

text \<open>
  C9, amended. \<^verbatim>\<open>initializeBoard\<close> does not check the starting length against the board.
  The only call that does not return normally is one with a negative number of rows or
  columns, for which the construction of the grid throws; for every other call, whatever
  the starting length, it lays out all the segments from the centre, away from the
  heading, and publishes.
\<close>

theorem initializeBoard_no_validation:
  "(initializeBoard rs cs len ppf dir k g = Inl LengthError \<longleftrightarrow> rs < 0 \<or> cs < 0) \<and>
   (0 \<le> rs \<and> 0 \<le> cs \<longrightarrow>
      (\<exists>g'. initializeBoard rs cs len ppf dir k g = Inr g' \<and>
         body (snake g') = map (segmentAt (rs div 2, cs div 2) dir) [0..len - 1] \<and>
         publishes (statePublisher g') = Suc (publishes (statePublisher g))))"
  by (auto simp: initializeBoard_result Snake_initialize_def Let_def)

theorem initializeBoard_no_validation_witness:
  "(0::int) \<le> 1 \<and> (0::int) \<le> 1 \<and>
   (\<exists>g'. initializeBoard 1 1 3 10 RIGHT 0 SnakeGameLogic_new = Inr g' \<and>
         body (snake g') = map (segmentAt (1 div 2, 1 div 2) RIGHT) [0..3 - 1] \<and>
         publishes (statePublisher g') = Suc (publishes (statePublisher SnakeGameLogic_new)))"
  using initializeBoard_no_validation [of 1 1 3 10 RIGHT 0 SnakeGameLogic_new] by simp

text \<open>
  The claim as it was stated fails: three segments on a 1 x 1 board are accepted, and two
  of them lie off the board.
\<close>

theorem initializeBoard_overlong_accepted:
  "\<not> isl (initializeBoard 1 1 3 10 RIGHT 0 SnakeGameLogic_new) \<and>
   body (snake (the_game (initializeBoard 1 1 3 10 RIGHT 0 SnakeGameLogic_new))) =
     [(0, 0), (0, - 1), (0, - 2)] \<and>
   grid (board (the_game (initializeBoard 1 1 3 10 RIGHT 0 SnakeGameLogic_new))) = [[SNAKE]]"
  by code_simp

section \<open>Running into the tail\<close>

text \<open>
  C10. In a non-terminal state whose snake has at least two segments, if the position
  computed for the new head is the position of the last segment, \<^verbatim>\<open>update\<close> ends the
  game: it returns false, sets the terminal flag and publishes a terminal snapshot,
  and the snake is not moved. The tail is among the segments the collision check
  compares with; only the head is skipped.
\<close>

theorem update_tail_collision:
  assumes "\<not> gameOver g"
    and "2 \<le> length (body (snake g))"
    and "candidate g = Some (last (body (snake g)))"
  shows "\<exists>g'. update k g = Inr (False, g') \<and> gameOver g' \<and> gs_gameOver (getGameState g') \<and>
           publishes (statePublisher g') = Suc (publishes (statePublisher g)) \<and>
           board g' = board g \<and> snake g' = snake g \<and> score g' = score g"
proof -
  let ?g1 = "g\<lparr>directionController := processInput (directionController g)\<rparr>"
  obtain h t where bd: "body (snake g) = h # t"
    using assms(2) by (cases "body (snake g)") auto
  have t: "t \<noteq> []"
    using assms(2) bd by auto
  have c: "getNextPosition (processInput (directionController g)) h = last t"
    using assms(3) bd t by (simp add: candidate_def getHead_def)
  have coll: "checkSelfCollision (snake g) (last t)"
    using bd t by (simp add: checkSelfCollision_def)
  have "update k g = endGame ?g1"
    using assms(1) bd c coll by (simp add: update_def getHead_def Let_def)
  then show ?thesis
    using endGame_effect [of ?g1] by auto
qed

text \<open>
  A snake of length four chasing its tail round a square of a 4 x 4 board: it starts
  with three segments heading right, eats the food in front of it, and turns down,
  left and up.
\<close>

theorem update_tail_collision_witness:
  "let g = the_game (play 4 4 3 10 RIGHT 8
             [Update 0, SetDirection DOWN, Update 0, SetDirection LEFT, Update 0,
              SetDirection UP])
   in \<not> gameOver g \<and> 2 \<le> length (body (snake g)) \<and>
      candidate g = Some (last (body (snake g))) \<and>
      (\<exists>g'. update 0 g = Inr (False, g') \<and> gameOver g' \<and> gs_gameOver (getGameState g') \<and>
           publishes (statePublisher g') = Suc (publishes (statePublisher g)) \<and>
           board g' = board g \<and> snake g' = snake g \<and> score g' = score g)"
proof -
  let ?g = "the_game (play 4 4 3 10 RIGHT 8
             [Update 0, SetDirection DOWN, Update 0, SetDirection LEFT, Update 0,
              SetDirection UP])"
  have h1: "\<not> gameOver ?g" by code_simp
  have h2: "2 \<le> length (body (snake ?g))" by code_simp
  have h3: "candidate ?g = Some (last (body (snake ?g)))" by code_simp
  show ?thesis
    unfolding Let_def using update_tail_collision [OF h1 h2 h3, of 0] h1 h2 h3 by blast
qed

end
